theory Spec2Isabelle
  imports Complex_Main
begin

section \<open>WritePoetry: a small decoder-only transformer trained on a poetry corpus\<close>

text \<open>
  The notebook \<^verbatim>\<open>WritePoetry.ipynb\<close> tokenises a text, splits the ids into a training
  and a validation part, draws random windows from them, trains a transformer with a
  causal attention mask and samples text from it. This theory embeds the notebook's own
  code: the split, \<^verbatim>\<open>get_batch\<close>, the classes \<^verbatim>\<open>MHA\<close>, \<^verbatim>\<open>FeedFoward\<close>, \<^verbatim>\<open>Block\<close>
  and \<^verbatim>\<open>Transformer\<close>, the training loop and the generation loop.

  Conventions.
  \<^item> A Python exception is a value of \<open>error\<close>; a computation that can raise returns
    \<open>error + 'a\<close>, with \<open>Inl\<close> the exception.
  \<^item> Token ids are \<open>int\<close>; a 1-D id tensor is an \<open>int list\<close>, a 2-D id tensor of shape
    (B, T) with B at least 1 is the list of its B rows.
  \<^item> A floating-point tensor of rank 3 is its shape and its entries; entries are reals
    (rounding is not modelled), and \<open>-inf\<close> is a separate value where the code uses it.
  \<^item> The numeric content of the learned layers (linear maps, layer normalisation, the
    query-key products) is left open: each layer is a function from its input tensor to
    its output entries, stored in the network record. Shapes, control flow, index checks,
    the mask, dropout and the mode flag are modelled as the code has them.
  \<^item> Torch's global random generator is an infinite stream of raw draws, threaded
    through every function that consumes randomness.
\<close>

subsection \<open>Exceptions and the error monad\<close>

datatype error =
    RuntimeError  \<comment> \<open>raised by \<^verbatim>\<open>torch.randint\<close> on an empty range and by \<^verbatim>\<open>torch.stack\<close>\<close>
  | IndexError    \<comment> \<open>raised by an embedding lookup or an index out of range\<close>

definition ebind :: "error + 'a \<Rightarrow> ('a \<Rightarrow> error + 'b) \<Rightarrow> error + 'b" where
  "ebind m f = (case m of Inl e \<Rightarrow> Inl e | Inr v \<Rightarrow> f v)"

subsection \<open>Globals of the notebook\<close>

definition batch_size :: nat where
  "batch_size = 16"

definition block_size :: nat where
  "block_size = 32"

text \<open>\<^verbatim>\<open>enc.n_vocab\<close> of tiktoken's gpt2 encoding.\<close>

definition n_vocab :: nat where
  "n_vocab = 50257"

text \<open>\<^verbatim>\<open>model = Transformer(128, 8, 8)\<close>: embedding width, heads, layers.\<close>

definition n_embd :: nat where
  "n_embd = 128"

definition n_head :: nat where
  "n_head = 8"

definition n_layer :: nat where
  "n_layer = 8"

subsection \<open>Python slices\<close>

text \<open>
  An index of a slice is clamped into \<open>0..len\<close>; a negative one counts from the end.
  \<^verbatim>\<open>xs[lo:hi]\<close>, \<^verbatim>\<open>xs[:hi]\<close> and \<^verbatim>\<open>xs[lo:]\<close> never raise.
\<close>

definition clamp_index :: "int \<Rightarrow> nat \<Rightarrow> nat" where
  "clamp_index i n = (if i < 0 then nat (max 0 (i + int n)) else min (nat i) n)"

definition py_slice :: "'a list \<Rightarrow> int \<Rightarrow> int \<Rightarrow> 'a list" where
  "py_slice xs lo hi =
     (let a = clamp_index lo (length xs); b = clamp_index hi (length xs)
      in take (b - a) (drop a xs))"

definition slice_to :: "'a list \<Rightarrow> int \<Rightarrow> 'a list" where
  "slice_to xs hi = take (clamp_index hi (length xs)) xs"

definition slice_from :: "'a list \<Rightarrow> int \<Rightarrow> 'a list" where
  "slice_from xs lo = drop (clamp_index lo (length xs)) xs"

subsection \<open>The split (cell 3)\<close>

text \<open>
  \<^verbatim>\<open>n = int(0.9*len(data)); train_data = data[:n]; val_data = data[n:]\<close>.
  Python's \<^verbatim>\<open>int\<close> truncates towards zero. The fraction is the literal 0.9 in the
  notebook; it is a parameter here, and the product is taken exactly.
\<close>

definition py_int :: "real \<Rightarrow> int" where
  "py_int r = (if 0 \<le> r then \<lfloor>r\<rfloor> else \<lceil>r\<rceil>)"

definition split_data :: "real \<Rightarrow> int list \<Rightarrow> error + (int list \<times> int list)" where
  "split_data f data =
     (let n = py_int (f * real (length data))
      in Inr (slice_to data n, slice_from data n))"

subsection \<open>Random generator\<close>

type_synonym generator = "nat \<Rightarrow> nat"

definition advance :: "nat \<Rightarrow> generator \<Rightarrow> generator" where
  "advance k g = (\<lambda>i. g (i + k))"

text \<open>
  \<^verbatim>\<open>torch.randint(low, high, (n,))\<close> raises RuntimeError (from must be less than to)
  when \<open>high \<le> low\<close>; otherwise each entry is \<open>low + (r mod (high - low))\<close> for a fresh raw
  draw \<open>r\<close>.
\<close>

definition randint_value :: "int \<Rightarrow> int \<Rightarrow> nat \<Rightarrow> int" where
  "randint_value low high r = low + int (r mod nat (high - low))"

definition randint :: "int \<Rightarrow> int \<Rightarrow> nat \<Rightarrow> generator \<Rightarrow> error + (int list \<times> generator)" where
  "randint low high n g =
     (if high \<le> low then Inl RuntimeError
      else Inr (map (\<lambda>k. randint_value low high (g k)) [0..<n], advance n g))"

subsection \<open>The batch sampler\<close>

text \<open>\<^verbatim>\<open>torch.stack\<close> raises on an empty list and on rows of different sizes.\<close>

definition stack :: "'a list list \<Rightarrow> error + 'a list list" where
  "stack rows =
     (case rows of
        [] \<Rightarrow> Inl RuntimeError
      | r # rs \<Rightarrow> if (\<forall>q \<in> set rs. length q = length r) then Inr rows else Inl RuntimeError)"

definition get_batch ::
  "int list \<Rightarrow> int list \<Rightarrow> string \<Rightarrow> generator \<Rightarrow>
   error + ((int list list \<times> int list list) \<times> generator)" where
  "get_batch train_data val_data split g =
     (let data = (if split = ''train'' then train_data else val_data) in
      ebind (randint 0 (int (length data) - int block_size) batch_size g) (\<lambda>(ix, g').
      ebind (stack (map (\<lambda>i. py_slice data i (i + int block_size)) ix)) (\<lambda>x.
      ebind (stack (map (\<lambda>i. py_slice data (i + 1) (i + int block_size + 1)) ix)) (\<lambda>y.
      Inr ((x, y), g')))))"

text \<open>The entry \<^verbatim>\<open>ix[row]\<close> of the offsets drawn by \<open>get_batch\<close> on \<open>data\<close>.\<close>

definition batch_offset :: "int list \<Rightarrow> generator \<Rightarrow> nat \<Rightarrow> int" where
  "batch_offset data g row = randint_value 0 (int (length data) - int block_size) (g row)"

subsection \<open>The causal mask of \<^verbatim>\<open>MHA.forward\<close>\<close>

text \<open>A float that may be \<open>-inf\<close>.\<close>

datatype xreal = MinusInf | Finite real

text \<open>Two-dimensional tensors of the mask computation are lists of rows.\<close>

definition shape1 :: "'a list list \<Rightarrow> nat" where
  "shape1 a = (case a of [] \<Rightarrow> 0 | r # _ \<Rightarrow> length r)"

definition ones :: "nat \<Rightarrow> nat \<Rightarrow> real list list" where
  "ones n m = replicate n (replicate m 1)"

text \<open>\<^verbatim>\<open>torch.triu\<close>: keeps the entries on and above the diagonal, zero below.\<close>

definition triu :: "real list list \<Rightarrow> real list list" where
  "triu a = map (\<lambda>i. map (\<lambda>j. if i \<le> j then a ! i ! j else 0) [0..<length (a ! i)]) [0..<length a]"

definition eq_scalar :: "real list list \<Rightarrow> real \<Rightarrow> bool list list" where
  "eq_scalar a c = map (map (\<lambda>v. v = c)) a"

definition transpose01 :: "'a list list \<Rightarrow> 'a list list" where
  "transpose01 a = map (\<lambda>j. map (\<lambda>i. a ! i ! j) [0..<length a]) [0..<shape1 a]"

text \<open>\<^verbatim>\<open>.float()\<close> of a boolean tensor.\<close>

definition to_float :: "bool list list \<Rightarrow> xreal list list" where
  "to_float a = map (map (\<lambda>b. Finite (if b then 1 else 0))) a"

text \<open>\<^verbatim>\<open>mask == 0\<close> and \<^verbatim>\<open>mask == 1\<close> on a boolean tensor.\<close>

definition eq_bool :: "bool list list \<Rightarrow> nat \<Rightarrow> bool list list" where
  "eq_bool a c = map (map (\<lambda>b. (if b then 1 else 0) = c)) a"

definition masked_fill :: "'a list list \<Rightarrow> bool list list \<Rightarrow> 'a \<Rightarrow> 'a list list" where
  "masked_fill a m v =
     map (\<lambda>i. map (\<lambda>j. if m ! i ! j then v else a ! i ! j) [0..<length (a ! i)]) [0..<length a]"

text \<open>
  The first two lines of \<^verbatim>\<open>MHA.forward\<close>, for \<open>T = x.shape[1]\<close>:
  \<^verbatim>\<open>mask = (torch.triu(torch.ones(T, T)) == 1).transpose(0, 1)\<close>
  \<^verbatim>\<open>mask = mask.float().masked_fill(mask == 0, float('-inf')).masked_fill(mask == 1, float(0.0))\<close>
\<close>

definition causal_mask :: "nat \<Rightarrow> xreal list list" where
  "causal_mask T =
     (let mask0 = transpose01 (eq_scalar (triu (ones T T)) 1)
      in masked_fill (masked_fill (to_float mask0) (eq_bool mask0 0) MinusInf)
           (eq_bool mask0 1) (Finite 0))"

text \<open>
  Inside \<^verbatim>\<open>nn.MultiheadAttention\<close> a float \<^verbatim>\<open>attn_mask\<close> is added to the scaled
  query-key scores and each row is normalised by softmax.
\<close>

fun xadd :: "real \<Rightarrow> xreal \<Rightarrow> xreal" where
  "xadd s MinusInf = MinusInf"
| "xadd s (Finite m) = Finite (s + m)"

fun xexp :: "xreal \<Rightarrow> real" where
  "xexp MinusInf = 0"
| "xexp (Finite r) = exp r"

definition softmax :: "nat \<Rightarrow> (nat \<Rightarrow> xreal) \<Rightarrow> nat \<Rightarrow> real" where
  "softmax n v j = xexp (v j) / (\<Sum>k<n. xexp (v k))"

definition masked_scores :: "xreal list list \<Rightarrow> (nat \<Rightarrow> nat \<Rightarrow> real) \<Rightarrow> nat \<Rightarrow> nat \<Rightarrow> xreal" where
  "masked_scores attn_mask scores i j = xadd (scores i j) (attn_mask ! i ! j)"

definition attn_weights :: "nat \<Rightarrow> xreal list list \<Rightarrow> (nat \<Rightarrow> nat \<Rightarrow> real) \<Rightarrow> nat \<Rightarrow> nat \<Rightarrow> real" where
  "attn_weights T attn_mask scores i j = softmax T (masked_scores attn_mask scores i) j"

subsection \<open>Float tensors of rank 3\<close>

record tensor =
  dim0 :: nat
  dim1 :: nat
  dim2 :: nat
  elem :: "nat \<Rightarrow> nat \<Rightarrow> nat \<Rightarrow> real"

text \<open>\<^verbatim>\<open>x.permute(1,0,2)\<close>.\<close>

definition permute102 :: "tensor \<Rightarrow> tensor" where
  "permute102 x = \<lparr>dim0 = dim1 x, dim1 = dim0 x, dim2 = dim2 x, elem = (\<lambda>i j k. elem x j i k)\<rparr>"

text \<open>\<^verbatim>\<open>x + y\<close> for two tensors of one shape (the residual connections).\<close>

definition tadd :: "tensor \<Rightarrow> tensor \<Rightarrow> tensor" where
  "tadd x y = x\<lparr>elem := (\<lambda>i j k. elem x i j k + elem y i j k)\<rparr>"

text \<open>\<^verbatim>\<open>x + p\<close> for \<open>x\<close> of shape (B, T, C) and \<open>p\<close> of shape (T, C), held as (1, T, C).\<close>

definition broadcast_add :: "tensor \<Rightarrow> tensor \<Rightarrow> tensor" where
  "broadcast_add x p = x\<lparr>elem := (\<lambda>b t c. elem x b t c + elem p 0 t c)\<rparr>"

text \<open>
  A learned layer is the function from its input to the entries of its output. The
  width checks of \<^verbatim>\<open>nn.Linear\<close> and \<^verbatim>\<open>nn.LayerNorm\<close> are left out: every layer of the
  notebook is built with the one width \<^verbatim>\<open>n_embd\<close>.
\<close>

type_synonym layer = "tensor \<Rightarrow> nat \<Rightarrow> nat \<Rightarrow> nat \<Rightarrow> real"

definition layer_norm :: "layer \<Rightarrow> tensor \<Rightarrow> tensor" where
  "layer_norm f x = x\<lparr>elem := f x\<rparr>"

definition linear_layer :: "nat \<Rightarrow> layer \<Rightarrow> tensor \<Rightarrow> tensor" where
  "linear_layer out_features f x = x\<lparr>dim2 := out_features, elem := f x\<rparr>"

text \<open>
  \<^verbatim>\<open>nn.Dropout()\<close> has p = 0.5: in training mode each entry is zeroed on one outcome of
  a fresh raw draw and doubled on the other; in evaluation mode the input is returned.
\<close>

definition dropout :: "bool \<Rightarrow> tensor \<Rightarrow> generator \<Rightarrow> tensor \<times> generator" where
  "dropout training_flag x g =
     (if training_flag
      then (x\<lparr>elem := (\<lambda>i j k. if even (g ((i * dim1 x + j) * dim2 x + k)) then 0
                                else 2 * elem x i j k)\<rparr>,
            advance (dim0 x * dim1 x * dim2 x) g)
      else (x, g))"

subsection \<open>The modules\<close>

record block =
  mha_ln :: layer
  attn_scores :: "tensor \<Rightarrow> nat \<Rightarrow> nat \<Rightarrow> nat \<Rightarrow> nat \<Rightarrow> real"
  attn_output :: "tensor \<Rightarrow> (nat \<Rightarrow> nat \<Rightarrow> nat \<Rightarrow> nat \<Rightarrow> real) \<Rightarrow> nat \<Rightarrow> nat \<Rightarrow> nat \<Rightarrow> real"
  mha_proj :: layer
  mha_proj_ln :: layer
  ff_proj1 :: layer
  ff_gelu :: "real \<Rightarrow> real"
  ff_proj2 :: layer

text \<open>
  \<^verbatim>\<open>self.attn(x, x, x, attn_mask=mask)\<close> on an input of shape (L, N, E): for batch entry
  \<open>n\<close> and head \<open>h\<close>, \<open>attn_scores b x n h i j\<close> is the scaled product of query \<open>i\<close>
  and key \<open>j\<close>; the mask is added, softmax gives the attention weights, and
  \<open>attn_output\<close> combines the values with the weights, concatenates the heads and
  projects. A two-dimensional mask must have shape (L, L), else RuntimeError.
\<close>

definition mha_weights :: "block \<Rightarrow> tensor \<Rightarrow> xreal list list \<Rightarrow> nat \<Rightarrow> nat \<Rightarrow> nat \<Rightarrow> nat \<Rightarrow> real" where
  "mha_weights b x attn_mask n h = attn_weights (dim0 x) attn_mask (attn_scores b x n h)"

definition multihead_attention :: "block \<Rightarrow> tensor \<Rightarrow> xreal list list \<Rightarrow> error + tensor" where
  "multihead_attention b x attn_mask =
     (if length attn_mask = dim0 x \<and> (\<forall>r \<in> set attn_mask. length r = dim0 x)
      then Inr (x\<lparr>elem := attn_output b x (mha_weights b x attn_mask)\<rparr>)
      else Inl RuntimeError)"

text \<open>
  The masked scores and the attention weights that \<^verbatim>\<open>MHA.forward\<close> computes on an input
  \<open>x\<close> of shape (B, T, C), for batch row \<open>n\<close> and head \<open>h\<close>: the attention module sees
  the normalised, permuted input and the mask built from \<open>x.shape[1]\<close>.
\<close>

definition MHA_masked_scores :: "block \<Rightarrow> tensor \<Rightarrow> nat \<Rightarrow> nat \<Rightarrow> nat \<Rightarrow> nat \<Rightarrow> xreal" where
  "MHA_masked_scores b x n h =
     masked_scores (causal_mask (dim1 x)) (attn_scores b (permute102 (layer_norm (mha_ln b) x)) n h)"

definition MHA_weights :: "block \<Rightarrow> tensor \<Rightarrow> nat \<Rightarrow> nat \<Rightarrow> nat \<Rightarrow> nat \<Rightarrow> real" where
  "MHA_weights b x n h =
     mha_weights b (permute102 (layer_norm (mha_ln b) x)) (causal_mask (dim1 x)) n h"

definition MHA_forward :: "block \<Rightarrow> bool \<Rightarrow> tensor \<Rightarrow> generator \<Rightarrow> error + (tensor \<times> generator)" where
  "MHA_forward b training_flag x g =
     (let attn_mask = causal_mask (dim1 x);
          x1 = layer_norm (mha_ln b) x;
          x2 = permute102 x1
      in ebind (multihead_attention b x2 attn_mask) (\<lambda>x3.
         let (x4, g') = dropout training_flag x3 g;
             x5 = permute102 x4;
             x6 = linear_layer n_embd (mha_proj b) x5;
             x7 = layer_norm (mha_proj_ln b) x6
         in Inr (x7, g')))"

definition FeedFoward_forward :: "block \<Rightarrow> bool \<Rightarrow> tensor \<Rightarrow> generator \<Rightarrow> tensor \<times> generator" where
  "FeedFoward_forward b training_flag x g =
     (let x1 = linear_layer (4 * n_embd) (ff_proj1 b) x;
          x2 = x1\<lparr>elem := (\<lambda>i j k. ff_gelu b (elem x1 i j k))\<rparr>;
          x3 = linear_layer n_embd (ff_proj2 b) x2
      in dropout training_flag x3 g)"

definition Block_forward :: "block \<Rightarrow> bool \<Rightarrow> tensor \<Rightarrow> generator \<Rightarrow> error + (tensor \<times> generator)" where
  "Block_forward b training_flag x g =
     ebind (MHA_forward b training_flag x g) (\<lambda>(a, g1).
       let x1 = tadd x a;
           (f, g2) = FeedFoward_forward b training_flag x1 g1
       in Inr (tadd x1 f, g2))"

text \<open>\<^verbatim>\<open>nn.Sequential\<close> over the blocks.\<close>

fun Sequential :: "block list \<Rightarrow> bool \<Rightarrow> tensor \<Rightarrow> generator \<Rightarrow> error + (tensor \<times> generator)" where
  "Sequential [] training_flag x g = Inr (x, g)"
| "Sequential (b # bs) training_flag x g =
     ebind (Block_forward b training_flag x g) (\<lambda>(x', g'). Sequential bs training_flag x' g')"

record net =
  blocks :: "block list"
  ln_out :: layer
  proj_out :: layer
  tok_emb :: "nat \<Rightarrow> nat \<Rightarrow> real"
  pos_emb :: "nat \<Rightarrow> nat \<Rightarrow> real"

text \<open>
  \<^verbatim>\<open>nn.Embedding(num, n_embd)\<close> applied to an id tensor: IndexError (index out of range)
  unless every id is in \<open>0..<num\<close>.
\<close>

definition embedding :: "nat \<Rightarrow> (nat \<Rightarrow> nat \<Rightarrow> real) \<Rightarrow> int list list \<Rightarrow> error + tensor" where
  "embedding num w x =
     (if (\<forall>r \<in> set x. \<forall>i \<in> set r. 0 \<le> i \<and> i < int num)
      then Inr \<lparr>dim0 = length x, dim1 = shape1 x, dim2 = n_embd,
                elem = (\<lambda>b t c. w (nat (x ! b ! t)) c)\<rparr>
      else Inl IndexError)"

definition arange :: "nat \<Rightarrow> int list" where
  "arange n = map int [0..<n]"

text \<open>
  \<^verbatim>\<open>Transformer.forward\<close>; \<^verbatim>\<open>tok_emb = nn.Embedding(enc.n_vocab, n_embd)\<close> and
  \<^verbatim>\<open>pos_emb = nn.Embedding(block_size, n_embd)\<close>.
\<close>

definition Transformer_forward ::
  "net \<Rightarrow> bool \<Rightarrow> int list list \<Rightarrow> generator \<Rightarrow> error + (tensor \<times> generator)" where
  "Transformer_forward m training_flag x g =
     ebind (embedding n_vocab (tok_emb m) x) (\<lambda>x1.
     ebind (embedding block_size (pos_emb m) [arange (shape1 x)]) (\<lambda>pe.
     ebind (Sequential (blocks m) training_flag (broadcast_add x1 pe) g) (\<lambda>(x3, g').
     Inr (linear_layer n_vocab (proj_out m) (layer_norm (ln_out m) x3), g'))))"

subsection \<open>The trainer\<close>

text \<open>
  The state the training and generation cells work on: the module with its mode flag
  (\<^verbatim>\<open>model.training\<close>, True for a new module), the gradient buffers, the optimiser's
  state, the random generator and the lines printed so far.
\<close>

record ('g, 'o) trainer =
  model :: net
  training :: bool
  grads :: 'g
  optim :: 'o
  rng :: generator
  printed :: "(nat \<times> real \<times> real) list"

text \<open>
  The numeric library calls of the loop: the cross-entropy loss, \<^verbatim>\<open>backward\<close> (adds the
  gradient of the loss of one forward pass to the buffers), \<^verbatim>\<open>optim.step\<close> and
  \<^verbatim>\<open>optim.zero_grad\<close>.
\<close>

record ('g, 'o) torch_ops =
  lossfcn :: "tensor \<Rightarrow> int list list \<Rightarrow> real"
  backward :: "net \<Rightarrow> bool \<Rightarrow> int list list \<Rightarrow> int list list \<Rightarrow> generator \<Rightarrow> 'g \<Rightarrow> 'g"
  optim_step :: "net \<Rightarrow> 'g \<Rightarrow> 'o \<Rightarrow> net \<times> 'o"
  zero_grad :: "'g \<Rightarrow> 'g"

definition new_trainer :: "net \<Rightarrow> 'g \<Rightarrow> 'o \<Rightarrow> generator \<Rightarrow> ('g, 'o) trainer" where
  "new_trainer m gr ost g =
     \<lparr>model = m, training = True, grads = gr, optim = ost, rng = g, printed = []\<rparr>"

definition model_eval :: "('g, 'o) trainer \<Rightarrow> ('g, 'o) trainer" where
  "model_eval s = s\<lparr>training := False\<rparr>"

definition model_train :: "('g, 'o) trainer \<Rightarrow> ('g, 'o) trainer" where
  "model_train s = s\<lparr>training := True\<rparr>"

text \<open>\<^verbatim>\<open>model(x)\<close>: the forward pass in the module's current mode.\<close>

definition model_call ::
  "('g, 'o) trainer \<Rightarrow> int list list \<Rightarrow> generator \<Rightarrow> error + (tensor \<times> generator)" where
  "model_call s x g = Transformer_forward (model s) (training s) x g"

text \<open>The first seven lines of the loop body: one optimisation step.\<close>

definition train_update ::
  "('g, 'o) torch_ops \<Rightarrow> int list \<Rightarrow> int list \<Rightarrow> ('g, 'o) trainer \<Rightarrow>
   error + (real \<times> ('g, 'o) trainer)" where
  "train_update ops train_data val_data s =
     ebind (get_batch train_data val_data ''train'' (rng s)) (\<lambda>((x, y), g1).
     ebind (model_call s x g1) (\<lambda>(y_hat, g2).
       let train_loss = lossfcn ops y_hat y;
           gr = backward ops (model s) (training s) x y g1 (grads s);
           (m', ost') = optim_step ops (model s) gr (optim s)
       in Inr (train_loss,
               s\<lparr>model := m', optim := ost', grads := zero_grad ops gr, rng := g2\<rparr>)))"

text \<open>The body of \<^verbatim>\<open>if (step+1) % 200 == 0\<close>.\<close>

definition validate ::
  "('g, 'o) torch_ops \<Rightarrow> int list \<Rightarrow> int list \<Rightarrow> nat \<Rightarrow> real \<Rightarrow> ('g, 'o) trainer \<Rightarrow>
   error + ('g, 'o) trainer" where
  "validate ops train_data val_data step train_loss s =
     (let s1 = model_eval s in
      ebind (get_batch train_data val_data ''val'' (rng s1)) (\<lambda>((x, y), g1).
      ebind (model_call s1 x g1) (\<lambda>(y_hat, g2).
        let val_loss = lossfcn ops y_hat y;
            s2 = s1\<lparr>rng := g2, printed := printed s1 @ [(step, train_loss, val_loss)]\<rparr>
        in Inr (model_train s2))))"

definition train_step ::
  "('g, 'o) torch_ops \<Rightarrow> int list \<Rightarrow> int list \<Rightarrow> nat \<Rightarrow> ('g, 'o) trainer \<Rightarrow>
   error + ('g, 'o) trainer" where
  "train_step ops train_data val_data step s =
     ebind (train_update ops train_data val_data s) (\<lambda>(train_loss, s1).
       if (step + 1) mod 200 = 0
       then validate ops train_data val_data step train_loss s1
       else Inr s1)"

text \<open>\<^verbatim>\<open>for step in range(first, first + count)\<close>; the notebook runs \<open>range(1000)\<close>.\<close>

fun train_from ::
  "('g, 'o) torch_ops \<Rightarrow> int list \<Rightarrow> int list \<Rightarrow> nat \<Rightarrow> nat \<Rightarrow> ('g, 'o) trainer \<Rightarrow>
   error + ('g, 'o) trainer" where
  "train_from ops train_data val_data step 0 s = Inr s"
| "train_from ops train_data val_data step (Suc k) s =
     ebind (train_step ops train_data val_data step s)
       (train_from ops train_data val_data (Suc step) k)"

definition train_loop ::
  "('g, 'o) torch_ops \<Rightarrow> int list \<Rightarrow> int list \<Rightarrow> ('g, 'o) trainer \<Rightarrow> error + ('g, 'o) trainer" where
  "train_loop ops train_data val_data s = train_from ops train_data val_data 0 1000 s"

subsection \<open>Generation (cell 9)\<close>

text \<open>\<^verbatim>\<open>seq[:, -block_size:]\<close> on the single row of \<open>seq\<close>.\<close>

definition gen_context :: "int list \<Rightarrow> int list" where
  "gen_context seq = slice_from seq (- int block_size)"

text \<open>\<^verbatim>\<open>y[:, -1]\<close>: IndexError when dimension 1 is empty.\<close>

definition select_last :: "tensor \<Rightarrow> error + (nat \<Rightarrow> nat \<Rightarrow> real)" where
  "select_last y = (if dim1 y = 0 then Inl IndexError else Inr (\<lambda>b c. elem y b (dim1 y - 1) c))"

text \<open>
  A categorical sampler stands for \<^verbatim>\<open>torch.multinomial(p, 1)\<close>: from the probabilities,
  the number of categories and the generator it returns one category.
\<close>

type_synonym sampler = "(nat \<Rightarrow> real) \<Rightarrow> nat \<Rightarrow> generator \<Rightarrow> nat"

text \<open>
  One pass through the loop body. \<^verbatim>\<open>model(context)\<close> is the forward pass in the module's
  current mode on the one-row tensor \<^verbatim>\<open>seq[:, -block_size:]\<close> (what \<open>model_call\<close> does,
  written out). Beside its result the step returns the record of that call: the mode flag
  and the id tensor that the forward pass is given.
\<close>

type_synonym forward_call = "bool \<times> int list list"

definition gen_step ::
  "sampler \<Rightarrow> ('g, 'o) trainer \<Rightarrow> int list \<Rightarrow>
   forward_call \<times> (error + (int list \<times> ('g, 'o) trainer))" where
  "gen_step multinomial s seq =
     (let flag = training s;
          rows = [gen_context seq]
      in ((flag, rows),
          ebind (Transformer_forward (model s) flag rows (rng s)) (\<lambda>(out, g1).
          ebind (select_last out) (\<lambda>y_hat.
            let p = softmax (dim2 out) (\<lambda>c. Finite (y_hat 0 c));
                next_word = int (multinomial p (dim2 out) g1)
            in Inr (seq @ [next_word], s\<lparr>rng := advance 1 g1\<rparr>)))))"

fun generate ::
  "sampler \<Rightarrow> nat \<Rightarrow> ('g, 'o) trainer \<Rightarrow> int list \<Rightarrow> error + (int list \<times> ('g, 'o) trainer)" where
  "generate multinomial 0 s seq = Inr (seq, s)"
| "generate multinomial (Suc n) s seq =
     ebind (snd (gen_step multinomial s seq)) (\<lambda>(seq', s'). generate multinomial n s' seq')"

text \<open>
  The records of the forward passes that \<open>generate\<close> makes, in the order of the steps: each
  entry is the record that the step itself returns.
\<close>

fun gen_trace ::
  "sampler \<Rightarrow> nat \<Rightarrow> ('g, 'o) trainer \<Rightarrow> int list \<Rightarrow> forward_call list" where
  "gen_trace multinomial 0 s seq = []"
| "gen_trace multinomial (Suc n) s seq =
     fst (gen_step multinomial s seq) #
     (case snd (gen_step multinomial s seq) of
        Inl e \<Rightarrow> []
      | Inr (seq', s') \<Rightarrow> gen_trace multinomial n s' seq')"

subsection \<open>Well-formed inputs\<close>

text \<open>Token ids as the tokenizer produces them, and a categorical sampler that returns one
  of the categories it is given.\<close>

definition valid_ids :: "int list \<Rightarrow> bool" where
  "valid_ids xs = (\<forall>i \<in> set xs. 0 \<le> i \<and> i < int n_vocab)"

definition sampler_ok :: "sampler \<Rightarrow> bool" where
  "sampler_ok multinomial = (\<forall>p n g. 0 < n \<longrightarrow> multinomial p n g < n)"

subsection \<open>Sample inputs\<close>

text \<open>A small network, library and corpus on which the theorems below are instantiated.\<close>

definition sample_block :: block where
  "sample_block =
     \<lparr>mha_ln = (\<lambda>x. elem x), attn_scores = (\<lambda>x n h i j. real i - real j),
      attn_output = (\<lambda>x w i n c. \<Sum>j<dim0 x. w n 0 i j * elem x j n c),
      mha_proj = (\<lambda>x. elem x), mha_proj_ln = (\<lambda>x. elem x),
      ff_proj1 = (\<lambda>x. elem x), ff_gelu = (\<lambda>v. v), ff_proj2 = (\<lambda>x. elem x)\<rparr>"

definition sample_net :: net where
  "sample_net =
     \<lparr>blocks = replicate n_layer sample_block, ln_out = (\<lambda>x. elem x), proj_out = (\<lambda>x. elem x),
      tok_emb = (\<lambda>i c. real i), pos_emb = (\<lambda>t c. real t)\<rparr>"

definition sample_ops :: "(unit, unit) torch_ops" where
  "sample_ops =
     \<lparr>lossfcn = (\<lambda>y_hat y. 0), backward = (\<lambda>m flag x y g gr. gr),
      optim_step = (\<lambda>m gr ost. (m, ost)), zero_grad = (\<lambda>gr. gr)\<rparr>"

definition sample_sampler :: sampler where
  "sample_sampler p n g = g 0 mod n"

definition sample_generator :: generator where
  "sample_generator k = 3 * k + 1"

definition sample_trainer :: "(unit, unit) trainer" where
  "sample_trainer = new_trainer sample_net () () sample_generator"

definition sample_train :: "int list" where
  "sample_train = map int [0..<360]"

definition sample_val :: "int list" where
  "sample_val = map int [360..<400]"

section \<open>Properties\<close>

subsection \<open>The error monad and slices\<close>

lemma ebind_Inl [simp]: "ebind (Inl e) f = Inl e"
  by (simp add: ebind_def)

lemma ebind_Inr [simp]: "ebind (Inr v) f = f v"
  by (simp add: ebind_def)

lemma clamp_index_le: "clamp_index i n \<le> n"
  by (auto simp: clamp_index_def max_def)

lemma clamp_index_nonneg: "0 \<le> i \<Longrightarrow> clamp_index i n = min (nat i) n"
  by (simp add: clamp_index_def)

lemma slice_to_from_append: "slice_to xs n @ slice_from xs n = xs"
  by (simp add: slice_to_def slice_from_def)

lemma slice_to_take: "0 \<le> n \<Longrightarrow> slice_to xs n = take (nat n) xs"
  by (simp add: slice_to_def clamp_index_nonneg min_def)

lemma slice_from_drop: "0 \<le> n \<Longrightarrow> slice_from xs n = drop (nat n) xs"
  by (simp add: slice_from_def clamp_index_nonneg min_def)

lemma py_slice_zero: "py_slice xs 0 n = slice_to xs n"
  by (simp add: py_slice_def slice_to_def clamp_index_def)

lemma py_slice_window:
  assumes "off + w \<le> length xs"
  shows "py_slice xs (int off) (int off + int w) = take w (drop off xs)"
  using assms by (simp add: py_slice_def clamp_index_def min_def nat_add_distrib)

lemma py_int_nonneg: "0 \<le> r \<Longrightarrow> py_int r = \<lfloor>r\<rfloor>"
  by (simp add: py_int_def)

subsection \<open>The split\<close>

text \<open>
  C2. For every id sequence and every split fraction \<open>f\<close> that is not negative (0.9 in the
  notebook), the split returns \<open>train = ids[0:floor(f*len(ids))]\<close> and
  \<open>val = ids[floor(f*len(ids)):]\<close> in the order of the sequence: the two lengths add up
  to the length of the sequence, and \<open>train\<close> followed by \<open>val\<close> is the sequence itself, so
  the two parts are contiguous, \<open>train\<close> comes first and no position is in both.
\<close>

theorem split_data_contract:
  assumes "0 \<le> f"
  shows "\<exists>train val. split_data f ids = Inr (train, val)
           \<and> train = py_slice ids 0 \<lfloor>f * real (length ids)\<rfloor>
           \<and> val = slice_from ids \<lfloor>f * real (length ids)\<rfloor>
           \<and> train = take (nat \<lfloor>f * real (length ids)\<rfloor>) ids
           \<and> val = drop (nat \<lfloor>f * real (length ids)\<rfloor>) ids
           \<and> length train + length val = length ids
           \<and> train @ val = ids"
proof -
  let ?n = "\<lfloor>f * real (length ids)\<rfloor>"
  have n0: "0 \<le> ?n" using assms by simp
  have pi: "py_int (f * real (length ids)) = ?n"
    using assms by (simp add: py_int_nonneg)
  have s: "split_data f ids = Inr (slice_to ids ?n, slice_from ids ?n)"
    by (simp add: split_data_def pi Let_def)
  have len: "length (slice_to ids ?n) + length (slice_from ids ?n) = length ids"
    using arg_cong [OF slice_to_from_append [of ids ?n], of length] by simp
  show ?thesis
    using s n0 len
    by (simp add: py_slice_zero slice_to_take slice_from_drop slice_to_from_append)
qed

theorem split_data_contract_witness:
  "(0::real) \<le> 9 / 10 \<and>
   split_data (9 / 10) [50, 51, 52, 53, 54, 55, 56, 57, 58, 59, 60]
     = Inr ([50, 51, 52, 53, 54, 55, 56, 57, 58], [59, 60])"
proof -
  have h: "(0::real) \<le> 9 / 10" by simp
  show ?thesis
    using split_data_contract [OF h, of "[50, 51, 52, 53, 54, 55, 56, 57, 58, 59, 60]"]
    by simp
qed

subsection \<open>The batch sampler\<close>

lemma batch_offset_range:
  assumes "block_size < length data"
  shows "0 \<le> batch_offset data g row"
    and "batch_offset data g row < int (length data) - int block_size"
    and "nat (batch_offset data g row) + block_size < length data"
proof -
  let ?h = "length data - block_size"
  have h: "0 < ?h" using assms by simp
  have eq: "nat (int (length data) - int block_size) = ?h" by simp
  have v: "batch_offset data g row = int (g row mod ?h)"
    by (simp add: batch_offset_def randint_value_def eq)
  have lt: "g row mod ?h < ?h" using h by simp
  show "0 \<le> batch_offset data g row" by (simp add: v)
  show "batch_offset data g row < int (length data) - int block_size"
    using lt assms unfolding v by linarith
  show "nat (batch_offset data g row) + block_size < length data"
    using lt assms unfolding v nat_int by linarith
qed

lemma randint_ok:
  assumes "low < high"
  shows "randint low high n g = Inr (map (\<lambda>k. randint_value low high (g k)) [0..<n], advance n g)"
  using assms by (simp add: randint_def)

lemma stack_ok:
  assumes "rows \<noteq> []" and "\<forall>q \<in> set rows. length q = w"
  shows "stack rows = Inr rows"
  using assms by (cases rows) (auto simp: stack_def)

lemma input_window:
  assumes "block_size < length data"
  shows "py_slice data (batch_offset data g row) (batch_offset data g row + int block_size)
         = take block_size (drop (nat (batch_offset data g row)) data)"
proof -
  let ?o = "nat (batch_offset data g row)"
  have o: "batch_offset data g row = int ?o"
    using batch_offset_range(1) [OF assms] by simp
  have "?o + block_size \<le> length data"
    using batch_offset_range(3) [OF assms, of g row] by simp
  from py_slice_window [OF this] show ?thesis using o by simp
qed

lemma target_window:
  assumes "block_size < length data"
  shows "py_slice data (batch_offset data g row + 1) (batch_offset data g row + int block_size + 1)
         = take block_size (drop (Suc (nat (batch_offset data g row))) data)"
proof -
  let ?o = "nat (batch_offset data g row)"
  have o: "batch_offset data g row = int ?o"
    using batch_offset_range(1) [OF assms] by simp
  have "Suc ?o + block_size \<le> length data"
    using batch_offset_range(3) [OF assms, of g row] by simp
  from py_slice_window [OF this] have w:
    "py_slice data (int (Suc ?o)) (int (Suc ?o) + int block_size) = take block_size (drop (Suc ?o) data)" .
  have e1: "batch_offset data g row + 1 = int (Suc ?o)" using o by simp
  have e2: "batch_offset data g row + int block_size + 1 = int (Suc ?o) + int block_size"
    using o by simp
  show ?thesis unfolding e1 e2 by (rule w)
qed

lemma window_lengths:
  assumes "block_size < length data"
  shows "length (take block_size (drop (nat (batch_offset data g row)) data)) = block_size"
    and "length (take block_size (drop (Suc (nat (batch_offset data g row))) data)) = block_size"
  using batch_offset_range(3) [OF assms, of g row] by simp_all

text \<open>The batch a split longer than one window yields, row by row.\<close>

lemma get_batch_rows:
  assumes "block_size < length data"
    and "data = (if split = ''train'' then train_data else val_data)"
  shows "get_batch train_data val_data split g =
     Inr ((map (\<lambda>row. take block_size (drop (nat (batch_offset data g row)) data)) [0..<batch_size],
           map (\<lambda>row. take block_size (drop (Suc (nat (batch_offset data g row))) data)) [0..<batch_size]),
          advance batch_size g)"
proof -
  let ?h = "int (length data) - int block_size"
  let ?ix = "map (\<lambda>k. randint_value 0 ?h (g k)) [0..<batch_size]"
  let ?xs = "map (\<lambda>row. take block_size (drop (nat (batch_offset data g row)) data)) [0..<batch_size]"
  let ?ys = "map (\<lambda>row. take block_size (drop (Suc (nat (batch_offset data g row))) data)) [0..<batch_size]"
  have h: "0 < ?h" using assms(1) by simp
  have r: "randint 0 ?h batch_size g = Inr (?ix, advance batch_size g)"
    by (rule randint_ok [OF h])
  have x: "map (\<lambda>i. py_slice data i (i + int block_size)) ?ix = ?xs"
    using input_window [OF assms(1)] by (simp add: batch_offset_def)
  have y: "map (\<lambda>i. py_slice data (i + 1) (i + int block_size + 1)) ?ix = ?ys"
    using target_window [OF assms(1)] by (simp add: batch_offset_def)
  have ne: "?xs \<noteq> []" "?ys \<noteq> []" by (simp_all add: batch_size_def)
  have sx: "stack ?xs = Inr ?xs"
    by (rule stack_ok [OF ne(1), of block_size]) (use window_lengths(1) [OF assms(1)] in auto)
  have sy: "stack ?ys = Inr ?ys"
    by (rule stack_ok [OF ne(2), of block_size]) (use window_lengths(2) [OF assms(1)] in auto)
  have "get_batch train_data val_data split g =
      ebind (randint 0 ?h batch_size g) (\<lambda>(ix, g').
      ebind (stack (map (\<lambda>i. py_slice data i (i + int block_size)) ix)) (\<lambda>x.
      ebind (stack (map (\<lambda>i. py_slice data (i + 1) (i + int block_size + 1)) ix)) (\<lambda>y.
      Inr ((x, y), g'))))"
    unfolding get_batch_def Let_def assms(2) ..
  then show ?thesis
    by (simp only: r ebind_Inr prod.case x y sx sy)
qed

lemma get_batch_short:
  assumes "length data \<le> block_size"
    and "data = (if split = ''train'' then train_data else val_data)"
  shows "get_batch train_data val_data split g = Inl RuntimeError"
proof -
  have "randint 0 (int (length data) - int block_size) batch_size g = Inl RuntimeError"
    using assms(1) by (simp add: randint_def)
  then show ?thesis
    unfolding get_batch_def Let_def assms(2) [symmetric] by simp
qed

lemma randint_value_period:
  assumes "k < h"
  shows "\<exists>!r. r < h \<and> randint_value 0 (int h) r = int k"
proof
  show "k < h \<and> randint_value 0 (int h) k = int k"
    using assms by (simp add: randint_value_def)
next
  fix r assume "r < h \<and> randint_value 0 (int h) r = int k"
  then show "r = k" by (auto simp: randint_value_def)
qed

lemma randint_value_shift:
  "randint_value 0 (int h) (r + h) = randint_value 0 (int h) r"
  by (simp add: randint_value_def)

text \<open>
  C3. On a split longer than \<open>block_size\<close>, \<open>get_batch\<close> returns \<open>batch_size\<close> rows of inputs
  and of targets. The offset of each row lies in \<open>[0, len(split) - block_size)\<close>; row \<open>row\<close> of
  the inputs is \<open>split[offset : offset+block_size]\<close> and row \<open>row\<close> of the targets is
  \<open>split[offset+1 : offset+block_size+1]\<close>, the same window moved by one position. The offset
  is the raw draw reduced modulo the width of the range: every offset of the range is the
  image of exactly one raw draw of each period, so a uniform raw draw gives a uniform offset.
\<close>

theorem get_batch_windows:
  assumes "block_size < length data"
    and "data = (if split = ''train'' then train_data else val_data)"
  shows "\<exists>x y. get_batch train_data val_data split g = Inr ((x, y), advance batch_size g)
     \<and> length x = batch_size \<and> length y = batch_size
     \<and> (\<forall>row<batch_size.
           0 \<le> batch_offset data g row
         \<and> batch_offset data g row < int (length data) - int block_size
         \<and> x ! row = py_slice data (batch_offset data g row)
                        (batch_offset data g row + int block_size)
         \<and> y ! row = py_slice data (batch_offset data g row + 1)
                        (batch_offset data g row + int block_size + 1)
         \<and> length (x ! row) = block_size \<and> length (y ! row) = block_size
         \<and> (\<forall>t<block_size.
                x ! row ! t = data ! (nat (batch_offset data g row) + t)
              \<and> y ! row ! t = data ! (nat (batch_offset data g row) + t + 1)))
     \<and> (\<forall>k<length data - block_size.
           \<exists>!r. r < length data - block_size
              \<and> randint_value 0 (int (length data - block_size)) r = int k)
     \<and> (\<forall>r. randint_value 0 (int (length data - block_size)) (r + (length data - block_size))
            = randint_value 0 (int (length data - block_size)) r)"
proof -
  let ?xs = "map (\<lambda>row. take block_size (drop (nat (batch_offset data g row)) data)) [0..<batch_size]"
  let ?ys = "map (\<lambda>row. take block_size (drop (Suc (nat (batch_offset data g row))) data)) [0..<batch_size]"
  have gb: "get_batch train_data val_data split g = Inr ((?xs, ?ys), advance batch_size g)"
    by (rule get_batch_rows [OF assms])
  have rows: "0 \<le> batch_offset data g row
         \<and> batch_offset data g row < int (length data) - int block_size
         \<and> ?xs ! row = py_slice data (batch_offset data g row)
                        (batch_offset data g row + int block_size)
         \<and> ?ys ! row = py_slice data (batch_offset data g row + 1)
                        (batch_offset data g row + int block_size + 1)
         \<and> length (?xs ! row) = block_size \<and> length (?ys ! row) = block_size
         \<and> (\<forall>t<block_size.
                ?xs ! row ! t = data ! (nat (batch_offset data g row) + t)
              \<and> ?ys ! row ! t = data ! (nat (batch_offset data g row) + t + 1))"
    if row: "row < batch_size" for row
  proof -
    have b: "nat (batch_offset data g row) + block_size < length data"
      by (rule batch_offset_range(3) [OF assms(1)])
    have x: "?xs ! row = take block_size (drop (nat (batch_offset data g row)) data)"
      using row by simp
    have y: "?ys ! row = take block_size (drop (Suc (nat (batch_offset data g row))) data)"
      using row by simp
    have elems: "\<forall>t<block_size.
                ?xs ! row ! t = data ! (nat (batch_offset data g row) + t)
              \<and> ?ys ! row ! t = data ! (nat (batch_offset data g row) + t + 1)"
      unfolding x y using b by simp
    show ?thesis
      using batch_offset_range(1,2) [OF assms(1), of g row] elems
      unfolding x y input_window [OF assms(1)] target_window [OF assms(1)]
      using b by simp
  qed
  have h: "0 < length data - block_size" using assms(1) by simp
  have uni: "\<forall>k<length data - block_size.
           \<exists>!r. r < length data - block_size
              \<and> randint_value 0 (int (length data - block_size)) r = int k"
    using randint_value_period by blast
  show ?thesis
    apply (rule exI [of _ ?xs], rule exI [of _ ?ys])
    apply (intro conjI)
         apply (rule gb)
        apply simp
       apply simp
      using rows apply blast
     apply (rule uni)
    apply (simp add: randint_value_shift)
    done
qed

text \<open>
  C6. On a split whose length is at most \<open>block_size\<close> (in particular equal to it), a batch
  request fails: \<^verbatim>\<open>torch.randint\<close> raises on the empty range of offsets, and no batch is
  returned. The exception is torch's RuntimeError; the notebook defines no exception of its
  own for this case.
\<close>

theorem get_batch_insufficient:
  assumes "length (if split = ''train'' then train_data else val_data) \<le> block_size"
  shows "get_batch train_data val_data split g = Inl RuntimeError"
  by (rule get_batch_short [OF assms refl])

theorem get_batch_insufficient_witness:
  "length (if ''val'' = ''train'' then [] else replicate 32 (7::int)) \<le> block_size
   \<and> length (replicate 32 (7::int)) = block_size
   \<and> get_batch [] (replicate 32 7) ''val'' (\<lambda>k. k) = Inl RuntimeError"
proof -
  have h: "length (if ''val'' = ''train'' then [] else replicate 32 (7::int)) \<le> block_size"
    by (simp add: block_size_def)
  show ?thesis
    using h get_batch_insufficient [OF h, of "\<lambda>k. k"] by (simp add: block_size_def)
qed

theorem get_batch_windows_witness:
  "block_size < length (map int [0..<40])
   \<and> (\<exists>x y. get_batch (map int [0..<40]) [] ''train'' (\<lambda>k. 3 * k + 1)
               = Inr ((x, y), advance batch_size (\<lambda>k. 3 * k + 1))
        \<and> x ! 2 = map int [7..<39] \<and> y ! 2 = map int [8..<40])"
proof -
  let ?d = "map int [0..<40]"
  let ?g = "\<lambda>k::nat. 3 * k + 1"
  have h1: "block_size < length ?d" by (simp add: block_size_def)
  have h2: "?d = (if ''train'' = ''train'' then ?d else [])" by simp
  have row: "(2::nat) < batch_size" by (simp add: batch_size_def)
  have off: "batch_offset ?d ?g 2 = 7"
    by (simp add: batch_offset_def randint_value_def block_size_def)
  have sx: "py_slice ?d 7 (7 + int block_size) = map int [7..<39]"
    by (simp add: py_slice_def clamp_index_def block_size_def take_map drop_map take_upt drop_upt)
  have sy: "py_slice ?d (7 + 1) (7 + int block_size + 1) = map int [8..<40]"
    by (simp add: py_slice_def clamp_index_def block_size_def take_map drop_map take_upt drop_upt)
  from get_batch_windows [OF h1 h2, of ?g] row off sx sy h1 show ?thesis
    by auto
qed

text \<open>
  C10. A split argument other than the exact string \<open>''train''\<close> is not rejected:
  \<open>get_batch\<close> does what it does for \<open>''val''\<close>, that is, it fails only if the validation
  split is too short and otherwise returns a batch whose rows are windows of the validation
  split. The string \<open>''train''\<close> selects the training split.
\<close>

theorem get_batch_unknown_split:
  assumes "split \<noteq> ''train''"
  shows "get_batch train_data val_data split g = get_batch train_data val_data ''val'' g
     \<and> (length val_data \<le> block_size \<longrightarrow>
           get_batch train_data val_data split g = Inl RuntimeError)
     \<and> (block_size < length val_data \<longrightarrow>
          (\<exists>x y. get_batch train_data val_data split g = Inr ((x, y), advance batch_size g)
             \<and> length x = batch_size \<and> length y = batch_size
             \<and> (\<forall>row<batch_size.
                   x ! row = py_slice val_data (batch_offset val_data g row)
                               (batch_offset val_data g row + int block_size)
                 \<and> y ! row = py_slice val_data (batch_offset val_data g row + 1)
                               (batch_offset val_data g row + int block_size + 1))))
     \<and> (block_size < length train_data \<longrightarrow>
          (\<exists>x y. get_batch train_data val_data ''train'' g = Inr ((x, y), advance batch_size g)
             \<and> length x = batch_size \<and> length y = batch_size
             \<and> (\<forall>row<batch_size.
                   x ! row = py_slice train_data (batch_offset train_data g row)
                               (batch_offset train_data g row + int block_size)
                 \<and> y ! row = py_slice train_data (batch_offset train_data g row + 1)
                               (batch_offset train_data g row + int block_size + 1))))"
proof -
  have same: "get_batch train_data val_data split g = get_batch train_data val_data ''val'' g"
    using assms by (simp add: get_batch_def)
  have short: "get_batch train_data val_data split g = Inl RuntimeError"
    if "length val_data \<le> block_size"
    by (rule get_batch_short [OF that]) (use assms in simp)
  have rows: "\<exists>x y. get_batch tr va sp g = Inr ((x, y), advance batch_size g)
             \<and> length x = batch_size \<and> length y = batch_size
             \<and> (\<forall>row<batch_size.
                   x ! row = py_slice data (batch_offset data g row)
                               (batch_offset data g row + int block_size)
                 \<and> y ! row = py_slice data (batch_offset data g row + 1)
                               (batch_offset data g row + int block_size + 1))"
    if len: "block_size < length data" and sel: "data = (if sp = ''train'' then tr else va)"
    for tr va sp data
  proof -
    let ?xs = "map (\<lambda>row. take block_size (drop (nat (batch_offset data g row)) data)) [0..<batch_size]"
    let ?ys = "map (\<lambda>row. take block_size (drop (Suc (nat (batch_offset data g row))) data)) [0..<batch_size]"
    have gb: "get_batch tr va sp g = Inr ((?xs, ?ys), advance batch_size g)"
      by (rule get_batch_rows [OF len sel])
    have "\<forall>row<batch_size.
                   ?xs ! row = py_slice data (batch_offset data g row)
                               (batch_offset data g row + int block_size)
                 \<and> ?ys ! row = py_slice data (batch_offset data g row + 1)
                               (batch_offset data g row + int block_size + 1)"
      by (simp add: input_window [OF len] target_window [OF len])
    with gb show ?thesis by simp
  qed
  have v: "val_data = (if split = ''train'' then train_data else val_data)"
    using assms by simp
  have t: "train_data = (if ''train'' = ''train'' then train_data else val_data)"
    by simp
  show ?thesis
    using same short rows [OF _ v] rows [OF _ t] by blast
qed

theorem get_batch_unknown_split_witness:
  "''Train'' \<noteq> ''train''
   \<and> length ([] :: int list) \<le> block_size
   \<and> get_batch (map int [0..<40]) [] ''Train'' (\<lambda>k. k) = get_batch (map int [0..<40]) [] ''val'' (\<lambda>k. k)
   \<and> get_batch (map int [0..<40]) [] ''Train'' (\<lambda>k. k) = Inl RuntimeError
   \<and> block_size < length (map int [0..<40])
   \<and> isl (get_batch [] (map int [0..<40]) ''Train'' (\<lambda>k. k)) = False"
proof -
  have h: "''Train'' \<noteq> ''train''" by simp
  have e: "length ([] :: int list) \<le> block_size" by simp
  have l: "block_size < length (map int [0..<40])" by (simp add: block_size_def)
  note a = get_batch_unknown_split [OF h, of "map int [0..<40]" "[]" "\<lambda>k. k"]
  note b = get_batch_unknown_split [OF h, of "[]" "map int [0..<40]" "\<lambda>k. k"]
  from b l obtain x y where
    "get_batch [] (map int [0..<40]) ''Train'' (\<lambda>k. k) = Inr ((x, y), advance batch_size (\<lambda>k. k))"
    by blast
  then have "isl (get_batch [] (map int [0..<40]) ''Train'' (\<lambda>k. k)) = False"
    by simp
  with a h e l show ?thesis by blast
qed

text \<open>
  C7, as the code has it. The split never fails: for every id sequence and every fraction
  it returns the two halves. A half shorter than \<open>block_size + 1\<close> is returned like any
  other; it is the later batch request on that half that fails.
\<close>

theorem split_data_never_fails:
  "\<exists>train val. split_data f ids = Inr (train, val)
     \<and> train @ val = ids
     \<and> (length train < block_size + 1 \<longrightarrow> get_batch train val ''train'' g = Inl RuntimeError)
     \<and> (length val < block_size + 1 \<longrightarrow> get_batch train val ''val'' g = Inl RuntimeError)"
proof -
  let ?n = "py_int (f * real (length ids))"
  have s: "split_data f ids = Inr (slice_to ids ?n, slice_from ids ?n)"
    by (simp add: split_data_def Let_def)
  have a: "get_batch tr va ''train'' g = Inl RuntimeError" if "length tr < block_size + 1"
    for tr va :: "int list"
    by (rule get_batch_short [of tr]) (use that in simp_all)
  have b: "get_batch tr va ''val'' g = Inl RuntimeError" if "length va < block_size + 1"
    for tr va :: "int list"
    by (rule get_batch_short [of va]) (use that in simp_all)
  show ?thesis
    using s a b slice_to_from_append [of ids ?n] by blast
qed

theorem split_data_never_fails_witness:
  "split_data (9 / 10) [1, 2, 3] = Inr ([1, 2], [3])
   \<and> length [1, 2 :: int] < block_size + 1
   \<and> get_batch [1, 2] [3] ''train'' (\<lambda>k. k) = Inl RuntimeError
   \<and> length [3 :: int] < block_size + 1
   \<and> get_batch [1, 2] [3] ''val'' (\<lambda>k. k) = Inl RuntimeError"
proof -
  have s: "split_data (9 / 10) [1, 2, 3] = Inr ([1, 2], [3])"
    by (simp add: split_data_def py_int_def slice_to_def slice_from_def clamp_index_def)
  have l: "length [1, 2 :: int] < block_size + 1" "length [3 :: int] < block_size + 1"
    by (simp_all add: block_size_def)
  from split_data_never_fails [of "9 / 10" "[1, 2, 3]" "\<lambda>k. k"] s l
  show ?thesis by auto
qed

text \<open>
  C7, as stated, fails: a sequence of three ids is split into halves of two and one ids,
  both shorter than \<open>block_size + 1\<close>, and the split returns them.
\<close>

theorem split_data_invalid_split_counterexample:
  "split_data (9 / 10) [1, 2, 3] = Inr ([1, 2], [3])
   \<and> length [1, 2 :: int] < block_size + 1
   \<and> length [3 :: int] < block_size + 1
   \<and> \<not> isl (split_data (9 / 10) [1, 2, 3])"
  by (simp add: split_data_def py_int_def slice_to_def slice_from_def clamp_index_def block_size_def)

subsection \<open>The causal mask\<close>

lemma shape1_replicate: "0 < n \<Longrightarrow> shape1 (replicate n r) = length r"
  by (cases n) (simp_all add: shape1_def)

lemma triu_ones_nth:
  assumes "i < T" "j < T"
  shows "triu (ones T T) ! i ! j = (if i \<le> j then 1 else 0)"
  using assms by (simp add: triu_def ones_def)

lemma length_triu_ones: "length (triu (ones T T)) = T"
  by (simp add: triu_def ones_def)

lemma length_triu_ones_row: "i < T \<Longrightarrow> length (triu (ones T T) ! i) = T"
  by (simp add: triu_def ones_def)

lemma shape1_upper: "shape1 (eq_scalar (triu (ones T T)) 1) = T"
proof (cases T)
  case 0
  then show ?thesis by (simp add: shape1_def eq_scalar_def triu_def ones_def)
next
  case (Suc k)
  have "eq_scalar (triu (ones T T)) 1 \<noteq> []"
    using Suc by (simp add: eq_scalar_def triu_def ones_def)
  then obtain r rs where c: "eq_scalar (triu (ones T T)) 1 = r # rs"
    by (cases "eq_scalar (triu (ones T T)) 1") auto
  have "r = eq_scalar (triu (ones T T)) 1 ! 0" using c by simp
  also have "length \<dots> = T"
    using Suc by (simp add: eq_scalar_def length_triu_ones length_triu_ones_row)
  finally show ?thesis using c by (simp add: shape1_def)
qed

lemma length_lower: "length (transpose01 (eq_scalar (triu (ones T T)) 1)) = T"
  by (simp add: transpose01_def shape1_upper)

lemma length_upper: "length (eq_scalar (triu (ones T T)) 1) = T"
  by (simp add: eq_scalar_def length_triu_ones)

lemma upper_nth:
  assumes "i < T" "j < T"
  shows "eq_scalar (triu (ones T T)) 1 ! i ! j = (i \<le> j)"
  using assms by (simp add: eq_scalar_def length_triu_ones length_triu_ones_row triu_ones_nth)

lemma length_lower_row: "i < T \<Longrightarrow> length (transpose01 (eq_scalar (triu (ones T T)) 1) ! i) = T"
  unfolding transpose01_def shape1_upper by (simp add: length_upper)

lemma lower_nth:
  assumes "i < T" "j < T"
  shows "transpose01 (eq_scalar (triu (ones T T)) 1) ! i ! j = (j \<le> i)"
  using assms unfolding transpose01_def shape1_upper
  by (simp add: length_upper upper_nth)

lemma length_causal_mask: "length (causal_mask T) = T"
  by (simp add: causal_mask_def Let_def masked_fill_def to_float_def length_lower)

lemma length_causal_mask_row: "i < T \<Longrightarrow> length (causal_mask T ! i) = T"
  using length_lower_row [of i T] length_lower [of T]
  by (simp add: causal_mask_def Let_def masked_fill_def to_float_def)

lemma causal_mask_nth:
  assumes "i < T" "j < T"
  shows "causal_mask T ! i ! j = (if j \<le> i then Finite 0 else MinusInf)"
  using assms lower_nth [OF assms] length_lower_row [of i T] length_lower [of T]
  by (simp add: causal_mask_def Let_def masked_fill_def to_float_def eq_bool_def)


lemma softmax_MinusInf: "v j = MinusInf \<Longrightarrow> softmax n v j = 0"
  by (simp add: softmax_def)

lemma xexp_nonneg: "0 \<le> xexp v"
  by (cases v) simp_all

lemma softmax_sum_one:
  assumes "i < n" and "v i = Finite r"
  shows "(\<Sum>j<n. softmax n v j) = 1"
proof -
  have "0 < xexp (v i)" using assms(2) by simp
  then have pos: "0 < (\<Sum>k<n. xexp (v k))"
    using assms(1) by (intro sum_pos2 [of _ i]) (simp_all add: xexp_nonneg)
  have "(\<Sum>j<n. softmax n v j) = (\<Sum>j<n. xexp (v j)) / (\<Sum>k<n. xexp (v k))"
    unfolding softmax_def by (rule sum_divide_distrib [symmetric])
  also have "\<dots> = 1" using pos by simp
  finally show ?thesis .
qed

lemma MHA_weights_unfold:
  "MHA_weights b x n h i j = softmax (dim1 x) (MHA_masked_scores b x n h i) j"
  by (simp add: MHA_weights_def MHA_masked_scores_def mha_weights_def attn_weights_def
      permute102_def layer_norm_def)

lemma MHA_masked_scores_nth:
  assumes "i < dim1 x" "j < dim1 x"
  shows "MHA_masked_scores b x n h i j =
     (if j \<le> i then Finite (attn_scores b (permute102 (layer_norm (mha_ln b) x)) n h i j)
      else MinusInf)"
  by (simp add: MHA_masked_scores_def masked_scores_def causal_mask_nth [OF assms])

lemma multihead_attention_ok:
  "multihead_attention b (permute102 (layer_norm (mha_ln b) x)) (causal_mask (dim1 x)) =
     Inr ((permute102 (layer_norm (mha_ln b) x))
            \<lparr>elem := attn_output b (permute102 (layer_norm (mha_ln b) x)) (MHA_weights b x)\<rparr>)"
proof -
  have d: "dim0 (permute102 (layer_norm (mha_ln b) x)) = dim1 x"
    by (simp add: permute102_def layer_norm_def)
  have rows: "\<forall>r \<in> set (causal_mask (dim1 x)). length r = dim1 x"
    using length_causal_mask_row [of _ "dim1 x"] length_causal_mask [of "dim1 x"]
    by (auto simp: in_set_conv_nth)
  have w: "mha_weights b (permute102 (layer_norm (mha_ln b) x)) (causal_mask (dim1 x)) = MHA_weights b x"
    by (rule ext)+ (simp add: MHA_weights_def)
  show ?thesis
    using rows by (simp add: multihead_attention_def d length_causal_mask w)
qed

text \<open>What \<^verbatim>\<open>MHA.forward\<close> returns, in terms of the attention weights it computes.\<close>

lemma MHA_forward_eq:
  "MHA_forward b flag x g =
     Inr (layer_norm (mha_proj_ln b) (linear_layer n_embd (mha_proj b) (permute102 (fst
            (dropout flag
               ((permute102 (layer_norm (mha_ln b) x))
                  \<lparr>elem := attn_output b (permute102 (layer_norm (mha_ln b) x)) (MHA_weights b x)\<rparr>)
               g)))),
          snd (dropout flag
               ((permute102 (layer_norm (mha_ln b) x))
                  \<lparr>elem := attn_output b (permute102 (layer_norm (mha_ln b) x)) (MHA_weights b x)\<rparr>)
               g))"
  by (simp add: MHA_forward_def Let_def multihead_attention_ok split_beta)

text \<open>
  C1. In \<^verbatim>\<open>MHA.forward\<close>, for every position \<open>i\<close> of the window, every head \<open>h\<close> and every
  batch row \<open>n\<close>: the mask is \<open>-inf\<close> at every later position \<open>j > i\<close> and 0 elsewhere, so the
  masked score at \<open>(i, j)\<close> is \<open>-inf\<close> before the softmax and the attention weight is exactly
  0 after it; the weights on the positions after \<open>i\<close> add up to 0 and those on the positions
  up to \<open>i\<close> add up to 1. The mask has the shape the attention module asks for, and the
  forward pass returns the dropped-out, projected and normalised attention output that is
  computed with exactly these weights, in either mode.
\<close>

theorem attention_is_causal:
  assumes "i < dim1 x"
  shows "(\<forall>j. i < j \<and> j < dim1 x \<longrightarrow>
            causal_mask (dim1 x) ! i ! j = MinusInf
          \<and> MHA_masked_scores b x n h i j = MinusInf
          \<and> MHA_weights b x n h i j = 0)
       \<and> (\<forall>j\<le>i. causal_mask (dim1 x) ! i ! j = Finite 0)
       \<and> (\<Sum>j\<in>{i<..<dim1 x}. MHA_weights b x n h i j) = 0
       \<and> (\<Sum>j\<le>i. MHA_weights b x n h i j) = 1
       \<and> multihead_attention b (permute102 (layer_norm (mha_ln b) x)) (causal_mask (dim1 x)) =
           Inr ((permute102 (layer_norm (mha_ln b) x))
                  \<lparr>elem := attn_output b (permute102 (layer_norm (mha_ln b) x)) (MHA_weights b x)\<rparr>)
       \<and> MHA_forward b flag x g =
           Inr (layer_norm (mha_proj_ln b) (linear_layer n_embd (mha_proj b) (permute102 (fst
                  (dropout flag
                     ((permute102 (layer_norm (mha_ln b) x))
                        \<lparr>elem := attn_output b (permute102 (layer_norm (mha_ln b) x))
                                   (MHA_weights b x)\<rparr>)
                     g)))),
                snd (dropout flag
                     ((permute102 (layer_norm (mha_ln b) x))
                        \<lparr>elem := attn_output b (permute102 (layer_norm (mha_ln b) x))
                                   (MHA_weights b x)\<rparr>)
                     g))"
proof -
  let ?T = "dim1 x"
  let ?W = "MHA_weights b x n h i"
  have future: "causal_mask ?T ! i ! j = MinusInf
          \<and> MHA_masked_scores b x n h i j = MinusInf \<and> ?W j = 0"
    if "i < j" "j < ?T" for j
  proof -
    have m: "causal_mask ?T ! i ! j = MinusInf"
      using that by (simp add: causal_mask_nth [OF assms that(2)])
    have s: "MHA_masked_scores b x n h i j = MinusInf"
      using that by (simp add: MHA_masked_scores_nth [OF assms that(2)])
    have "?W j = 0"
      unfolding MHA_weights_unfold by (simp add: softmax_def s)
    with m s show ?thesis by simp
  qed
  have past: "causal_mask ?T ! i ! j = Finite 0" if "j \<le> i" for j
  proof -
    have "j < ?T" using that assms by simp
    from causal_mask_nth [OF assms this] that show ?thesis by simp
  qed
  have zero: "(\<Sum>j\<in>{i<..<?T}. ?W j) = 0"
    using future by (intro sum.neutral) simp
  have diag: "MHA_masked_scores b x n h i i
      = Finite (attn_scores b (permute102 (layer_norm (mha_ln b) x)) n h i i)"
    by (simp add: MHA_masked_scores_nth [OF assms assms])
  have all: "(\<Sum>j<?T. ?W j) = 1"
    unfolding MHA_weights_unfold
    by (rule softmax_sum_one [of i "dim1 x" "MHA_masked_scores b x n h i", OF assms diag])
  have parts: "{..<?T} = {..i} \<union> {i<..<?T}" using assms by auto
  have "(\<Sum>j<?T. ?W j) = (\<Sum>j\<le>i. ?W j) + (\<Sum>j\<in>{i<..<?T}. ?W j)"
    unfolding parts by (rule sum.union_disjoint) auto
  with all zero have one: "(\<Sum>j\<le>i. ?W j) = 1" by simp
  show ?thesis
    using future past zero one multihead_attention_ok [of b x] MHA_forward_eq [of b flag x g]
    by blast
qed

lemma sample_block_fields:
  "mha_ln sample_block = (\<lambda>x. elem x)"
  "attn_output sample_block = (\<lambda>x w i n c. \<Sum>j<dim0 x. w n 0 i j * elem x j n c)"
  "mha_proj sample_block = (\<lambda>x. elem x)"
  "mha_proj_ln sample_block = (\<lambda>x. elem x)"
  by (simp_all add: sample_block_def)

lemma sum_below_three: "(\<Sum>j<(3::nat). f j) = f 0 + f (Suc 0) + (f 2 :: real)"
  by (simp add: numeral_3_eq_3 numeral_2_eq_2)

text \<open>
  On a one-row window whose three positions hold 1, 2 and 3, with a block whose attention
  output is the weighted sum of the inputs and whose other layers are the identity: the
  weight of position 2 for position 1 is 0, and the output at position 0 is the input at
  position 0, whatever the later positions hold.
\<close>

theorem attention_is_causal_witness:
  "(0::nat) < dim1 \<lparr>dim0 = 1, dim1 = 3, dim2 = 1, elem = (\<lambda>b t c. real t + 1)\<rparr>
   \<and> (1::nat) < dim1 \<lparr>dim0 = 1, dim1 = 3, dim2 = 1, elem = (\<lambda>b t c. real t + 1)\<rparr>
   \<and> causal_mask 3 ! 1 ! 2 = MinusInf
   \<and> causal_mask 3 ! 1 ! 0 = Finite 0
   \<and> MHA_masked_scores sample_block
        \<lparr>dim0 = 1, dim1 = 3, dim2 = 1, elem = (\<lambda>b t c. real t + 1)\<rparr> 0 0 1 2 = MinusInf
   \<and> MHA_weights sample_block
        \<lparr>dim0 = 1, dim1 = 3, dim2 = 1, elem = (\<lambda>b t c. real t + 1)\<rparr> 0 0 1 2 = 0
   \<and> (\<exists>a g'. MHA_forward sample_block False
                 \<lparr>dim0 = 1, dim1 = 3, dim2 = 1, elem = (\<lambda>b t c. real t + 1)\<rparr> sample_generator
               = Inr (a, g')
            \<and> elem a 0 0 0 = 1)"
proof -
  define x where "x = \<lparr>dim0 = 1, dim1 = 3, dim2 = 1, elem = (\<lambda>b t c. real t + 1)\<rparr>"
  have xf: "dim0 x = 1" "dim1 x = 3" "dim2 x = 1" "elem x = (\<lambda>b t c. real t + 1)"
    by (simp_all add: x_def)
  let ?W = "MHA_weights sample_block x 0 0"
  have h0: "(0::nat) < dim1 x" and h1: "(1::nat) < dim1 x" by (simp_all add: xf)
  note c0 = attention_is_causal [OF h0, where b = sample_block and n = 0 and h = 0
      and flag = False and g = sample_generator]
  note c1 = attention_is_causal [OF h1, where b = sample_block and n = 0 and h = 0
      and flag = False and g = sample_generator]
  have w1: "?W 0 (Suc 0) = 0" and w2: "?W 0 2 = 0"
    using c0 by (simp_all add: xf)
  have "(\<Sum>j\<le>0. ?W 0 j) = 1" using c0 by blast
  then have w0: "?W 0 0 = 1" by simp
  have m: "causal_mask 3 ! 1 ! 2 = MinusInf" "causal_mask 3 ! 1 ! 0 = Finite 0"
    "MHA_masked_scores sample_block x 0 0 1 2 = MinusInf" "?W 1 2 = 0"
    using c1 by (simp_all add: xf)
  let ?a = "layer_norm (mha_proj_ln sample_block) (linear_layer n_embd (mha_proj sample_block)
          (permute102 (fst (dropout False
             ((permute102 (layer_norm (mha_ln sample_block) x))
                \<lparr>elem := attn_output sample_block (permute102 (layer_norm (mha_ln sample_block) x))
                           (MHA_weights sample_block x)\<rparr>)
             sample_generator))))"
  let ?g = "snd (dropout False
             ((permute102 (layer_norm (mha_ln sample_block) x))
                \<lparr>elem := attn_output sample_block (permute102 (layer_norm (mha_ln sample_block) x))
                           (MHA_weights sample_block x)\<rparr>)
             sample_generator)"
  have r: "MHA_forward sample_block False x sample_generator = Inr (?a, ?g)"
    using c0 by blast
  have "elem ?a 0 0 0 = (\<Sum>j<(3::nat). ?W 0 j * (real j + 1))"
    by (simp add: sample_block_fields layer_norm_def linear_layer_def permute102_def
        dropout_def xf)
  also have "\<dots> = 1"
    unfolding sum_below_three by (simp add: w0 w1 w2)
  finally have "elem ?a 0 0 0 = 1" .
  with r have "\<exists>a g'. MHA_forward sample_block False x sample_generator = Inr (a, g')
            \<and> elem a 0 0 0 = 1"
    by blast
  with m h0 h1 show ?thesis unfolding x_def by blast
qed

subsection \<open>The forward pass\<close>

lemma embedding_ok:
  assumes "\<forall>r \<in> set x. \<forall>i \<in> set r. 0 \<le> i \<and> i < int num"
  shows "embedding num w x =
     Inr \<lparr>dim0 = length x, dim1 = shape1 x, dim2 = n_embd,
          elem = (\<lambda>b t c. w (nat (x ! b ! t)) c)\<rparr>"
  using assms by (simp add: embedding_def)


lemma shape1_single [simp]: "shape1 [r] = length r"
  by (simp add: shape1_def)

lemma length_arange [simp]: "length (arange n) = n"
  by (simp add: arange_def)

lemma set_arange: "set (arange n) = int ` {..<n}"
  by (auto simp: arange_def)


lemma positions_fit:
  assumes "T \<le> block_size"
  shows "embedding block_size w [arange T] =
     Inr \<lparr>dim0 = 1, dim1 = T, dim2 = n_embd, elem = (\<lambda>b t c. w (nat ([arange T] ! b ! t)) c)\<rparr>"
proof -
  have "\<forall>r \<in> set [arange T]. \<forall>i \<in> set r. 0 \<le> i \<and> i < int block_size"
    using assms by (auto simp: set_arange)
  from embedding_ok [OF this] show ?thesis by simp
qed




lemma dropout_dims:
  "dim0 (fst (dropout flag x g)) = dim0 x"
  "dim1 (fst (dropout flag x g)) = dim1 x"
  "dim2 (fst (dropout flag x g)) = dim2 x"
  by (simp_all add: dropout_def)

lemma dropout_eval: "dropout False x g = (x, g)"
  by (simp add: dropout_def)

lemma MHA_forward_ok:
  "\<exists>a g'. MHA_forward b flag x g = Inr (a, g') \<and> dim0 a = dim0 x \<and> dim1 a = dim1 x"
proof -
  let ?x2 = "permute102 (layer_norm (mha_ln b) x)"
  let ?x3 = "?x2\<lparr>elem := attn_output b ?x2 (MHA_weights b x)\<rparr>"
  let ?d = "dropout flag ?x3 g"
  let ?a = "layer_norm (mha_proj_ln b) (linear_layer n_embd (mha_proj b) (permute102 (fst ?d)))"
  have "MHA_forward b flag x g = Inr (?a, snd ?d)"
    by (simp add: MHA_forward_def Let_def multihead_attention_ok split_beta)
  moreover have "dim0 ?a = dim0 x" "dim1 ?a = dim1 x"
    by (simp_all add: layer_norm_def linear_layer_def permute102_def dropout_dims)
  ultimately show ?thesis by blast
qed

lemma FeedFoward_forward_dims:
  "dim0 (fst (FeedFoward_forward b flag x g)) = dim0 x"
  "dim1 (fst (FeedFoward_forward b flag x g)) = dim1 x"
  by (simp_all add: FeedFoward_forward_def Let_def dropout_dims linear_layer_def)

lemma Block_forward_ok:
  "\<exists>y g'. Block_forward b flag x g = Inr (y, g') \<and> dim0 y = dim0 x \<and> dim1 y = dim1 x"
proof -
  obtain a g1 where m: "MHA_forward b flag x g = Inr (a, g1)"
    using MHA_forward_ok [of b flag x g] by blast
  let ?f = "FeedFoward_forward b flag (tadd x a) g1"
  have "Block_forward b flag x g = Inr (tadd (tadd x a) (fst ?f), snd ?f)"
    by (simp add: Block_forward_def m Let_def split_beta)
  moreover have "dim0 (tadd (tadd x a) (fst ?f)) = dim0 x" "dim1 (tadd (tadd x a) (fst ?f)) = dim1 x"
    by (simp_all add: tadd_def)
  ultimately show ?thesis by blast
qed

lemma Sequential_ok:
  "\<exists>y g'. Sequential bs flag x g = Inr (y, g') \<and> dim0 y = dim0 x \<and> dim1 y = dim1 x"
proof (induction bs arbitrary: x g)
  case Nil
  show ?case by simp
next
  case (Cons b bs)
  obtain x' g1 where b: "Block_forward b flag x g = Inr (x', g1)"
    and d: "dim0 x' = dim0 x" "dim1 x' = dim1 x"
    using Block_forward_ok [of b flag x g] by blast
  from Cons.IH [of x' g1] obtain y g' where
    "Sequential bs flag x' g1 = Inr (y, g')" "dim0 y = dim0 x'" "dim1 y = dim1 x'"
    by blast
  with b d show ?case by simp
qed

lemma forward_ok:
  assumes "\<forall>r \<in> set x. valid_ids r" and "shape1 x \<le> block_size"
  shows "\<exists>y g'. Transformer_forward m flag x g = Inr (y, g')
           \<and> dim0 y = length x \<and> dim1 y = shape1 x \<and> dim2 y = n_vocab"
proof -
  let ?x1 = "\<lparr>dim0 = length x, dim1 = shape1 x, dim2 = n_embd,
          elem = (\<lambda>b t c. tok_emb m (nat (x ! b ! t)) c)\<rparr>"
  let ?pe = "\<lparr>dim0 = 1, dim1 = shape1 x, dim2 = n_embd,
          elem = (\<lambda>b t c. pos_emb m (nat ([arange (shape1 x)] ! b ! t)) c)\<rparr>"
  have t: "embedding n_vocab (tok_emb m) x = Inr ?x1"
    using assms(1) by (intro embedding_ok) (simp add: valid_ids_def)
  have p: "embedding block_size (pos_emb m) [arange (shape1 x)] = Inr ?pe"
    by (rule positions_fit [OF assms(2)])
  obtain x3 g' where s: "Sequential (blocks m) flag (broadcast_add ?x1 ?pe) g = Inr (x3, g')"
    and d: "dim0 x3 = dim0 (broadcast_add ?x1 ?pe)" "dim1 x3 = dim1 (broadcast_add ?x1 ?pe)"
    using Sequential_ok [of "blocks m" flag "broadcast_add ?x1 ?pe" g] by blast
  let ?y = "linear_layer n_vocab (proj_out m) (layer_norm (ln_out m) x3)"
  have "Transformer_forward m flag x g = Inr (?y, g')"
    by (simp only: Transformer_forward_def t p s ebind_Inr prod.case)
  moreover have "dim0 ?y = length x" "dim1 ?y = shape1 x" "dim2 ?y = n_vocab"
    using d by (simp_all add: linear_layer_def layer_norm_def broadcast_add_def)
  ultimately show ?thesis by blast
qed

subsection \<open>The trainer\<close>

lemma shape1_map_upt: "0 < n \<Longrightarrow> shape1 (map f [0..<n]) = length (f 0)"
  by (simp add: shape1_def upt_conv_Cons)

lemma valid_ids_window: "valid_ids data \<Longrightarrow> valid_ids (take n (drop k data))"
  unfolding valid_ids_def by (meson in_set_dropD in_set_takeD)

lemma get_batch_valid:
  assumes "block_size < length data"
    and "data = (if split = ''train'' then train_data else val_data)"
    and "valid_ids data"
  shows "\<exists>x y. get_batch train_data val_data split g = Inr ((x, y), advance batch_size g)
           \<and> (\<forall>r \<in> set x. valid_ids r) \<and> shape1 x = block_size"
proof -
  let ?xs = "map (\<lambda>row. take block_size (drop (nat (batch_offset data g row)) data)) [0..<batch_size]"
  let ?ys = "map (\<lambda>row. take block_size (drop (Suc (nat (batch_offset data g row))) data)) [0..<batch_size]"
  have gb: "get_batch train_data val_data split g = Inr ((?xs, ?ys), advance batch_size g)"
    by (rule get_batch_rows [OF assms(1,2)])
  have v: "\<forall>r \<in> set ?xs. valid_ids r"
    using valid_ids_window [OF assms(3)] by auto
  have "0 < batch_size" by (simp add: batch_size_def)
  then have "shape1 ?xs = block_size"
    by (simp only: shape1_map_upt window_lengths(1) [OF assms(1)])
  with gb v show ?thesis by blast
qed

lemma model_call_ok:
  assumes "\<forall>r \<in> set x. valid_ids r" and "shape1 x \<le> block_size"
  shows "\<exists>y g'. model_call s x g = Inr (y, g')
           \<and> dim0 y = length x \<and> dim1 y = shape1 x \<and> dim2 y = n_vocab"
  unfolding model_call_def by (rule forward_ok [OF assms])

lemma train_update_ok:
  assumes "block_size < length train_data" and "valid_ids train_data"
  shows "\<exists>loss s1. train_update ops train_data val_data s = Inr (loss, s1)
           \<and> training s1 = training s \<and> printed s1 = printed s"
proof -
  obtain x y where gb: "get_batch train_data val_data ''train'' (rng s)
        = Inr ((x, y), advance batch_size (rng s))"
    and v: "\<forall>r \<in> set x. valid_ids r" and sh: "shape1 x = block_size"
    using get_batch_valid [where data = train_data and split = "''train''"
        and train_data = train_data and val_data = val_data and g = "rng s"] assms
    by auto
  obtain y_hat g2 where f: "model_call s x (advance batch_size (rng s)) = Inr (y_hat, g2)"
    using model_call_ok [where x = x and s = s and g = "advance batch_size (rng s)"] v sh
    by auto
  show ?thesis
    by (simp add: train_update_def gb f Let_def split_beta)
qed

lemma train_update_flag:
  assumes "train_update ops train_data val_data s = Inr (loss, s1)"
  shows "training s1 = training s"
  using assms
  by (auto simp: train_update_def ebind_def Let_def split_beta split: sum.splits)

lemma validate_ok:
  assumes "block_size < length val_data" and "valid_ids val_data"
  shows "\<exists>x y y_hat g2 s'.
            get_batch train_data val_data ''val'' (rng s) = Inr ((x, y), advance batch_size (rng s))
          \<and> Transformer_forward (model s) False x (advance batch_size (rng s)) = Inr (y_hat, g2)
          \<and> validate ops train_data val_data step train_loss s = Inr s'
          \<and> model s' = model s \<and> grads s' = grads s \<and> optim s' = optim s
          \<and> training s' = True
          \<and> printed s' = printed s @ [(step, train_loss, lossfcn ops y_hat y)]"
proof -
  obtain x y where gb: "get_batch train_data val_data ''val'' (rng s)
        = Inr ((x, y), advance batch_size (rng s))"
    and v: "\<forall>r \<in> set x. valid_ids r" and sh: "shape1 x = block_size"
    using get_batch_valid [where data = val_data and split = "''val''"
        and train_data = train_data and val_data = val_data and g = "rng s"] assms
    by auto
  obtain y_hat g2 where f: "Transformer_forward (model s) False x (advance batch_size (rng s))
        = Inr (y_hat, g2)"
    using forward_ok [where x = x and m = "model s" and flag = False
        and g = "advance batch_size (rng s)"] v sh
    by auto
  have "validate ops train_data val_data step train_loss s =
      Inr (model_train ((model_eval s)\<lparr>rng := g2,
             printed := printed (model_eval s) @ [(step, train_loss, lossfcn ops y_hat y)]\<rparr>))"
    by (simp add: validate_def Let_def model_call_def model_eval_def gb f)
  with gb f show ?thesis
    by (simp add: model_train_def model_eval_def)
qed

lemma validate_flag:
  assumes "validate ops train_data val_data step loss s = Inr s'"
  shows "training s'"
  using assms
  by (auto simp: validate_def ebind_def Let_def split_beta model_train_def split: sum.splits)

text \<open>
  C9. At the steps with \<open>(step + 1) mod 200 = 0\<close>, after the optimisation step, the loop
  body draws one batch from the validation split, runs the forward pass with the mode flag
  off (evaluation mode), and appends one report with the validation loss. The network, the
  gradient buffers and the optimiser's state are those the optimisation step left: nothing
  is updated. The mode flag is on again afterwards. At every other step nothing follows the
  optimisation step.
\<close>

theorem validation_only_reports:
  assumes "block_size < length val_data" and "valid_ids val_data"
    and "train_update ops train_data val_data s = Inr (train_loss, s1)"
  shows "((step + 1) mod 200 = 0 \<longrightarrow>
          (\<exists>x y y_hat g2 s'.
              get_batch train_data val_data ''val'' (rng s1)
                = Inr ((x, y), advance batch_size (rng s1))
            \<and> Transformer_forward (model s1) False x (advance batch_size (rng s1))
                = Inr (y_hat, g2)
            \<and> train_step ops train_data val_data step s = Inr s'
            \<and> model s' = model s1 \<and> grads s' = grads s1 \<and> optim s' = optim s1
            \<and> training s' = True
            \<and> printed s' = printed s1 @ [(step, train_loss, lossfcn ops y_hat y)]))
       \<and> ((step + 1) mod 200 \<noteq> 0 \<longrightarrow> train_step ops train_data val_data step s = Inr s1)"
proof (intro conjI impI)
  assume k: "(step + 1) mod 200 = 0"
  have "train_step ops train_data val_data step s
        = validate ops train_data val_data step train_loss s1"
    using k by (simp add: train_step_def assms(3))
  with validate_ok [OF assms(1,2), where train_data = train_data and s = s1 and ops = ops
      and step = step and train_loss = train_loss]
  show "\<exists>x y y_hat g2 s'.
              get_batch train_data val_data ''val'' (rng s1)
                = Inr ((x, y), advance batch_size (rng s1))
            \<and> Transformer_forward (model s1) False x (advance batch_size (rng s1))
                = Inr (y_hat, g2)
            \<and> train_step ops train_data val_data step s = Inr s'
            \<and> model s' = model s1 \<and> grads s' = grads s1 \<and> optim s' = optim s1
            \<and> training s' = True
            \<and> printed s' = printed s1 @ [(step, train_loss, lossfcn ops y_hat y)]"
    by simp
next
  assume "(step + 1) mod 200 \<noteq> 0"
  then show "train_step ops train_data val_data step s = Inr s1"
    by (simp add: train_step_def assms(3))
qed

lemma sample_data_ok:
  "block_size < length sample_train" "valid_ids sample_train"
  "block_size < length sample_val" "valid_ids sample_val"
  by (auto simp: sample_train_def sample_val_def block_size_def valid_ids_def n_vocab_def)

theorem validation_only_reports_witness:
  "block_size < length sample_val \<and> valid_ids sample_val
   \<and> (199 + 1) mod 200 = (0::nat) \<and> (7 + 1) mod 200 \<noteq> (0::nat)
   \<and> (\<exists>loss s1 s'.
         train_update sample_ops sample_train sample_val sample_trainer = Inr (loss, s1)
       \<and> train_step sample_ops sample_train sample_val 7 sample_trainer = Inr s1
       \<and> train_step sample_ops sample_train sample_val 199 sample_trainer = Inr s'
       \<and> model s' = model s1 \<and> training s' \<and> length (printed s') = 1)"
proof -
  obtain loss s1 where u: "train_update sample_ops sample_train sample_val sample_trainer = Inr (loss, s1)"
    and p: "printed s1 = printed sample_trainer"
    using train_update_ok [OF sample_data_ok(1,2), where ops = sample_ops
        and val_data = sample_val and s = sample_trainer]
    by blast
  have e: "printed sample_trainer = []"
    by (simp add: sample_trainer_def new_trainer_def)
  have m: "(199 + 1) mod 200 = (0::nat)" "(7 + 1) mod 200 \<noteq> (0::nat)" by simp_all
  from validation_only_reports [OF sample_data_ok(3,4) u, where step = 199] m(1)
  obtain s' where "train_step sample_ops sample_train sample_val 199 sample_trainer = Inr s'"
    "model s' = model s1" "training s'" "length (printed s') = 1"
    using p e by auto
  moreover from validation_only_reports [OF sample_data_ok(3,4) u, where step = 7] m(2)
  have "train_step sample_ops sample_train sample_val 7 sample_trainer = Inr s1" by blast
  ultimately show ?thesis
    using u sample_data_ok(3,4) m by blast
qed

lemma train_step_ok:
  assumes "block_size < length train_data" and "valid_ids train_data"
    and "block_size < length val_data" and "valid_ids val_data"
  shows "\<exists>s'. train_step ops train_data val_data step s = Inr s'"
proof -
  obtain loss s1 where u: "train_update ops train_data val_data s = Inr (loss, s1)"
    using train_update_ok [OF assms(1,2), where ops = ops and val_data = val_data and s = s]
    by blast
  obtain s' where "validate ops train_data val_data step loss s1 = Inr s'"
    using validate_ok [OF assms(3,4), where ops = ops and train_data = train_data and s = s1
        and step = step and train_loss = loss]
    by blast
  then show ?thesis by (simp add: train_step_def u)
qed

lemma train_step_flag:
  assumes "training s" and "train_step ops train_data val_data step s = Inr s'"
  shows "training s'"
proof (cases "train_update ops train_data val_data s")
  case (Inl e)
  with assms(2) show ?thesis by (simp add: train_step_def)
next
  case (Inr r)
  obtain loss s1 where r: "r = (loss, s1)" by (cases r)
  have f: "training s1" using train_update_flag [OF Inr [unfolded r]] assms(1) by simp
  show ?thesis
  proof (cases "(step + 1) mod 200 = 0")
    case True
    with assms(2) Inr r have "validate ops train_data val_data step loss s1 = Inr s'"
      by (simp add: train_step_def)
    then show ?thesis by (rule validate_flag)
  next
    case False
    with assms(2) Inr r have "s' = s1" by (simp add: train_step_def)
    with f show ?thesis by simp
  qed
qed

lemma train_from_ok:
  assumes "block_size < length train_data" and "valid_ids train_data"
    and "block_size < length val_data" and "valid_ids val_data"
  shows "\<exists>s'. train_from ops train_data val_data step k s = Inr s'"
proof (induction k arbitrary: step s)
  case 0
  show ?case by simp
next
  case (Suc k)
  obtain s1 where "train_step ops train_data val_data step s = Inr s1"
    using train_step_ok [OF assms] by blast
  with Suc.IH [of "Suc step" s1] show ?case by simp
qed

lemma train_from_flag:
  assumes "training s" and "train_from ops train_data val_data step k s = Inr s'"
  shows "training s'"
  using assms
proof (induction k arbitrary: step s)
  case 0
  then show ?case by simp
next
  case (Suc k)
  show ?case
  proof (cases "train_step ops train_data val_data step s")
    case (Inl e)
    with Suc.prems(2) show ?thesis by simp
  next
    case (Inr s1)
    have "training s1" by (rule train_step_flag [OF Suc.prems(1) Inr])
    moreover have "train_from ops train_data val_data (Suc step) k s1 = Inr s'"
      using Suc.prems(2) Inr by simp
    ultimately show ?thesis by (rule Suc.IH)
  qed
qed

subsection \<open>Generation\<close>

lemma gen_context_drop: "gen_context seq = drop (length seq - block_size) seq"
proof -
  have "0 < block_size" by (simp add: block_size_def)
  then have "clamp_index (- int block_size) (length seq) = length seq - block_size"
    by (auto simp: clamp_index_def max_def)
  then show ?thesis by (simp add: gen_context_def slice_from_def)
qed

lemma select_last_ok: "0 < dim1 y \<Longrightarrow> select_last y = Inr (\<lambda>b c. elem y b (dim1 y - 1) c)"
  by (simp add: select_last_def)

lemma gen_step_call:
  "fst (gen_step multinomial s seq) = (training s, [drop (length seq - block_size) seq])"
  by (simp add: gen_step_def Let_def gen_context_drop)

lemma gen_step_ok:
  assumes "seq \<noteq> []" and "valid_ids seq" and "sampler_ok multinomial"
  shows "\<exists>y g1.
       Transformer_forward (model s) (training s) [drop (length seq - block_size) seq] (rng s)
         = Inr (y, g1)
     \<and> gen_step multinomial s seq =
         ((training s, [drop (length seq - block_size) seq]),
          Inr (seq @ [int (multinomial
                            (softmax (dim2 y) (\<lambda>c. Finite (elem y 0 (dim1 y - 1) c)))
                            (dim2 y) g1)],
               s\<lparr>rng := advance 1 g1\<rparr>))
     \<and> valid_ids (seq @ [int (multinomial
                            (softmax (dim2 y) (\<lambda>c. Finite (elem y 0 (dim1 y - 1) c)))
                            (dim2 y) g1)])"
proof -
  let ?c = "drop (length seq - block_size) seq"
  have len: "length ?c = min (length seq) block_size" by auto
  have v: "\<forall>r \<in> set [?c]. valid_ids r"
    using assms(2) by (auto simp: valid_ids_def dest: in_set_dropD)
  have sh: "shape1 [?c] \<le> block_size" using len by simp
  obtain y g1 where f: "Transformer_forward (model s) (training s) [?c] (rng s) = Inr (y, g1)"
    and d: "dim1 y = shape1 [?c]" "dim2 y = n_vocab"
    using forward_ok [OF v sh, where m = "model s" and flag = "training s" and g = "rng s"]
    by blast
  have "0 < dim1 y"
    using d(1) len assms(1) by (simp add: block_size_def)
  then have sel: "select_last y = Inr (\<lambda>b c. elem y b (dim1 y - 1) c)"
    by (rule select_last_ok)
  let ?w = "int (multinomial (softmax (dim2 y) (\<lambda>c. Finite (elem y 0 (dim1 y - 1) c)))
                   (dim2 y) g1)"
  have step: "gen_step multinomial s seq =
      ((training s, [?c]), Inr (seq @ [?w], s\<lparr>rng := advance 1 g1\<rparr>))"
    by (simp add: gen_step_def gen_context_drop f sel Let_def)
  have "0 < n_vocab" by (simp add: n_vocab_def)
  then have "multinomial (softmax (dim2 y) (\<lambda>c. Finite (elem y 0 (dim1 y - 1) c)))
                   (dim2 y) g1 < n_vocab"
    using assms(3) d(2) by (simp add: sampler_ok_def)
  then have "valid_ids (seq @ [?w])"
    using assms(2) by (simp add: valid_ids_def)
  with f step show ?thesis by blast
qed

lemma gen_step_flag:
  assumes "snd (gen_step multinomial s seq) = Inr (seq', s')"
  shows "training s' = training s"
  using assms
  by (auto simp: gen_step_def ebind_def Let_def split_beta split: sum.splits)

lemma gen_step_empty: "snd (gen_step multinomial s []) = Inl IndexError"
proof -
  have c: "gen_context [] = []" by (simp add: gen_context_drop)
  have v: "\<forall>r \<in> set [[] :: int list]. valid_ids r" by (simp add: valid_ids_def)
  have sh: "shape1 [[] :: int list] \<le> block_size" by simp
  obtain y g1 where f: "Transformer_forward (model s) (training s) [[]] (rng s) = Inr (y, g1)"
    and d: "dim1 y = shape1 [[] :: int list]"
    using forward_ok [OF v sh, where m = "model s" and flag = "training s" and g = "rng s"]
    by blast
  have "select_last y = Inl IndexError" using d by (simp add: select_last_def)
  then show ?thesis by (simp add: gen_step_def Let_def c f)
qed

lemma gen_trace_flags: "\<forall>e \<in> set (gen_trace multinomial n s seq). fst e = training s"
proof (induction n arbitrary: s seq)
  case 0
  show ?case by simp
next
  case (Suc n)
  have h: "fst (fst (gen_step multinomial s seq)) = training s"
    by (simp add: gen_step_call)
  show ?case
  proof (cases "snd (gen_step multinomial s seq)")
    case (Inl e)
    with h show ?thesis by simp
  next
    case (Inr r)
    obtain seq' s' where r: "r = (seq', s')" by (cases r)
    have "training s' = training s" using gen_step_flag [OF Inr [unfolded r]] .
    with Suc.IH [of s' seq'] h show ?thesis by (simp add: Inr r)
  qed
qed

text \<open>The loop, unrolled at its last pass.\<close>

lemma generate_snoc:
  "generate multinomial (Suc k) s seq =
     ebind (generate multinomial k s seq) (\<lambda>(q, sk). snd (gen_step multinomial sk q))"
proof (induction k arbitrary: s seq)
  case 0
  show ?case by (cases "snd (gen_step multinomial s seq)") auto
next
  case (Suc k)
  show ?case
  proof (cases "snd (gen_step multinomial s seq)")
    case (Inl e)
    then show ?thesis by simp
  next
    case (Inr r)
    obtain seq' s' where r: "r = (seq', s')" by (cases r)
    have "generate multinomial (Suc (Suc k)) s seq = generate multinomial (Suc k) s' seq'"
      by (simp add: Inr r)
    also have "\<dots> = ebind (generate multinomial k s' seq')
                      (\<lambda>(q, sk). snd (gen_step multinomial sk q))"
      by (rule Suc.IH)
    also have "generate multinomial k s' seq' = generate multinomial (Suc k) s seq"
      by (simp add: Inr r)
    finally show ?thesis .
  qed
qed

text \<open>Entry \<open>k\<close> of the trace is the record returned by the step taken from the state
  after \<open>k\<close> passes.\<close>

lemma gen_trace_nth:
  assumes "generate multinomial k s seq = Inr (q, sk)" and "k < n"
  shows "gen_trace multinomial n s seq ! k = fst (gen_step multinomial sk q)"
  using assms
proof (induction k arbitrary: n s seq)
  case 0
  then obtain n' where "n = Suc n'" by (cases n) auto
  with 0 show ?case by simp
next
  case (Suc k)
  from Suc.prems(2) obtain n' where n: "n = Suc n'" and k: "k < n'" by (cases n) auto
  show ?case
  proof (cases "snd (gen_step multinomial s seq)")
    case (Inl e)
    with Suc.prems(1) show ?thesis by simp
  next
    case (Inr r)
    obtain seq' s' where r: "r = (seq', s')" by (cases r)
    have "generate multinomial k s' seq' = Inr (q, sk)"
      using Suc.prems(1) by (simp add: Inr r)
    from Suc.IH [OF this k] show ?thesis by (simp add: n Inr r)
  qed
qed

lemma generate_props:
  assumes "sampler_ok multinomial"
  shows "seed \<noteq> [] \<Longrightarrow> valid_ids seed \<Longrightarrow>
     \<exists>out s'. generate multinomial n s seed = Inr (out, s')
       \<and> length out = length seed + n
       \<and> take (length seed) out = seed
       \<and> valid_ids out
       \<and> length (gen_trace multinomial n s seed) = n
       \<and> (\<forall>k\<le>n. \<exists>sk. generate multinomial k s seed = Inr (take (length seed + k) out, sk))"
proof (induction n arbitrary: s seed)
  case 0
  then show ?case by simp
next
  case (Suc n)
  obtain y g1 where "Transformer_forward (model s) (training s)
          [drop (length seed - block_size) seed] (rng s) = Inr (y, g1)"
    and g: "gen_step multinomial s seed =
         ((training s, [drop (length seed - block_size) seed]),
          Inr (seed @ [int (multinomial
                            (softmax (dim2 y) (\<lambda>c. Finite (elem y 0 (dim1 y - 1) c)))
                            (dim2 y) g1)],
               s\<lparr>rng := advance 1 g1\<rparr>))"
    and v: "valid_ids (seed @ [int (multinomial
                            (softmax (dim2 y) (\<lambda>c. Finite (elem y 0 (dim1 y - 1) c)))
                            (dim2 y) g1)])"
    using gen_step_ok [OF Suc.prems assms, where s = s] by (elim exE conjE) fast
  let ?q = "seed @ [int (multinomial
                            (softmax (dim2 y) (\<lambda>c. Finite (elem y 0 (dim1 y - 1) c)))
                            (dim2 y) g1)]"
  let ?s1 = "s\<lparr>rng := advance 1 g1\<rparr>"
  have "?q \<noteq> []" by simp
  from Suc.IH [OF this v, of ?s1] obtain out s' where
    r: "generate multinomial n ?s1 ?q = Inr (out, s')"
    and l: "length out = length ?q + n"
    and p: "take (length ?q) out = ?q"
    and vo: "valid_ids out"
    and tl: "length (gen_trace multinomial n ?s1 ?q) = n"
    and pf: "\<forall>k\<le>n. \<exists>sk. generate multinomial k ?s1 ?q = Inr (take (length ?q + k) out, sk)"
    by blast
  have unroll: "generate multinomial (Suc j) s seed = generate multinomial j ?s1 ?q" for j
    by (simp only: generate.simps g snd_conv ebind_Inr prod.case)
  have run: "generate multinomial (Suc n) s seed = Inr (out, s')"
    by (simp only: unroll r)
  have len: "length out = length seed + Suc n" using l by simp
  have "take (length seed) (take (length ?q) out) = take (length seed) ?q"
    by (simp only: p)
  then have pre: "take (length seed) out = seed" by (simp add: min_def)
  have "gen_trace multinomial (Suc n) s seed
      = (training s, [drop (length seed - block_size) seed]) # gen_trace multinomial n ?s1 ?q"
    by (simp only: gen_trace.simps g fst_conv snd_conv sum.case prod.case)
  then have trl: "length (gen_trace multinomial (Suc n) s seed) = Suc n"
    by (simp add: tl del: One_nat_def)
  have steps: "\<exists>sk. generate multinomial k s seed = Inr (take (length seed + k) out, sk)"
    if "k \<le> Suc n" for k
  proof (cases k)
    case 0
    then show ?thesis by (simp add: pre)
  next
    case (Suc j)
    with that have "j \<le> n" by simp
    with pf obtain sk where "generate multinomial j ?s1 ?q = Inr (take (length ?q + j) out, sk)"
      by blast
    moreover have "length ?q + j = length seed + k" using Suc by simp
    ultimately have "generate multinomial k s seed = Inr (take (length seed + k) out, sk)"
      unfolding Suc by (simp only: unroll)
    then show ?thesis by blast
  qed
  show ?case
    using run len pre vo trl steps by blast
qed

text \<open>
  Every pass of a run, seen from the result \<open>out\<close>: pass \<open>k\<close> starts from the first
  \<open>len(seed) + k\<close> ids, runs the forward pass on their last \<open>block_size\<close> ids (all of them
  if there are fewer) in the module's mode, and appends the id that the sampler draws from
  the softmax of the logits at the last position.
\<close>

lemma generate_pass:
  assumes ok: "sampler_ok multinomial" and ne: "seed \<noteq> []"
    and run: "generate multinomial n s seed = Inr (out, s')"
    and len: "length out = length seed + n"
    and vo: "valid_ids out"
    and pf: "\<forall>k\<le>n. \<exists>sk. generate multinomial k s seed = Inr (take (length seed + k) out, sk)"
    and k: "k < n"
  shows "\<exists>sk y g1.
       generate multinomial k s seed = Inr (take (length seed + k) out, sk)
     \<and> Transformer_forward (model sk) (training sk)
          [drop (length seed + k - block_size) (take (length seed + k) out)] (rng sk)
         = Inr (y, g1)
     \<and> gen_step multinomial sk (take (length seed + k) out)
         = ((training sk, [drop (length seed + k - block_size) (take (length seed + k) out)]),
            Inr (take (length seed + k + 1) out, sk\<lparr>rng := advance 1 g1\<rparr>))
     \<and> gen_trace multinomial n s seed ! k
         = (training sk, [drop (length seed + k - block_size) (take (length seed + k) out)])
     \<and> out ! (length seed + k)
         = int (multinomial (softmax (dim2 y) (\<lambda>c. Finite (elem y 0 (dim1 y - 1) c)))
                  (dim2 y) g1)"
proof -
  let ?q = "take (length seed + k) out"
  have lq: "length ?q = length seed + k" using len k by simp
  have qne: "?q \<noteq> []" using lq ne by (cases ?q) auto
  have qv: "valid_ids ?q"
    using vo unfolding valid_ids_def by (meson in_set_takeD)
  obtain sk where gk: "generate multinomial k s seed = Inr (?q, sk)"
    using pf k by (meson less_imp_le)
  obtain sk' where gk': "generate multinomial (Suc k) s seed
      = Inr (take (length seed + Suc k) out, sk')"
    using pf k by (meson Suc_leI)
  obtain y g1 where f: "Transformer_forward (model sk) (training sk)
          [drop (length ?q - block_size) ?q] (rng sk) = Inr (y, g1)"
    and st: "gen_step multinomial sk ?q =
         ((training sk, [drop (length ?q - block_size) ?q]),
          Inr (?q @ [int (multinomial
                            (softmax (dim2 y) (\<lambda>c. Finite (elem y 0 (dim1 y - 1) c)))
                            (dim2 y) g1)],
               sk\<lparr>rng := advance 1 g1\<rparr>))"
    using gen_step_ok [OF qne qv ok, where s = sk] by (elim exE conjE) fast
  let ?w = "int (multinomial (softmax (dim2 y) (\<lambda>c. Finite (elem y 0 (dim1 y - 1) c)))
                   (dim2 y) g1)"
  have "generate multinomial (Suc k) s seed = snd (gen_step multinomial sk ?q)"
    by (simp only: generate_snoc gk ebind_Inr prod.case)
  with gk' st have eq: "take (length seed + Suc k) out = ?q @ [?w]"
    and sq: "sk' = sk\<lparr>rng := advance 1 g1\<rparr>"
    by simp_all
  have "out ! (length seed + k) = take (length seed + Suc k) out ! (length seed + k)"
    by simp
  also have "\<dots> = ?w"
    unfolding eq using lq by (simp add: nth_append)
  finally have w: "out ! (length seed + k) = ?w" .
  have tr: "gen_trace multinomial n s seed ! k = (training sk, [drop (length ?q - block_size) ?q])"
    using gen_trace_nth [OF gk k] by (simp add: st)
  have st': "gen_step multinomial sk ?q =
         ((training sk, [drop (length ?q - block_size) ?q]),
          Inr (take (length seed + k + 1) out, sk\<lparr>rng := advance 1 g1\<rparr>))"
    using st eq by simp
  show ?thesis
    using gk f st' tr w unfolding lq by blast
qed

text \<open>
  C4, as the code has it. For every seed that is not empty and consists of ids of the
  vocabulary, and every step count \<open>n\<close>, generation returns a sequence of length
  \<open>len(seed) + n\<close> whose first \<open>len(seed)\<close> ids are the seed; after \<open>k\<close> passes the sequence is
  the first \<open>len(seed) + k\<close> ids of the result, so each pass appends exactly one id. Pass
  \<open>k\<close> makes one forward pass, and the tensor it gives the model is the one row of the last
  \<open>min(len(seq), block_size)\<close> ids of the sequence at that pass; the id it appends is the
  sampler's draw from the softmax of the logits that this forward pass returns for the last
  position.
\<close>

theorem generate_extends_seed:
  assumes "seed \<noteq> []" and "valid_ids seed" and "sampler_ok multinomial"
  shows "\<exists>out s'. generate multinomial n s seed = Inr (out, s')
     \<and> length out = length seed + n
     \<and> take (length seed) out = seed
     \<and> (\<forall>k\<le>n. \<exists>sk. generate multinomial k s seed = Inr (take (length seed + k) out, sk))
     \<and> length (gen_trace multinomial n s seed) = n
     \<and> (\<forall>k<n. snd (gen_trace multinomial n s seed ! k)
               = [drop (length seed + k - block_size) (take (length seed + k) out)]
            \<and> length (drop (length seed + k - block_size) (take (length seed + k) out))
               = min (length seed + k) block_size)
     \<and> (\<forall>k<n. \<exists>sk y g1.
            generate multinomial k s seed = Inr (take (length seed + k) out, sk)
          \<and> Transformer_forward (model sk) (training sk)
               [drop (length seed + k - block_size) (take (length seed + k) out)] (rng sk)
              = Inr (y, g1)
          \<and> gen_step multinomial sk (take (length seed + k) out)
              = ((training sk,
                  [drop (length seed + k - block_size) (take (length seed + k) out)]),
                 Inr (take (length seed + k + 1) out, sk\<lparr>rng := advance 1 g1\<rparr>))
          \<and> gen_trace multinomial n s seed ! k
              = (training sk, [drop (length seed + k - block_size) (take (length seed + k) out)])
          \<and> out ! (length seed + k)
              = int (multinomial (softmax (dim2 y) (\<lambda>c. Finite (elem y 0 (dim1 y - 1) c)))
                       (dim2 y) g1))"
proof -
  from generate_props [OF assms(3) assms(1,2), of n s] obtain out s' where
    r: "generate multinomial n s seed = Inr (out, s')"
    and l: "length out = length seed + n"
    and p: "take (length seed) out = seed"
    and vo: "valid_ids out"
    and tl: "length (gen_trace multinomial n s seed) = n"
    and pf: "\<forall>k\<le>n. \<exists>sk. generate multinomial k s seed = Inr (take (length seed + k) out, sk)"
    by blast
  note pass = generate_pass [OF assms(3) assms(1) r l vo pf]
  have ctx: "snd (gen_trace multinomial n s seed ! k)
               = [drop (length seed + k - block_size) (take (length seed + k) out)]
            \<and> length (drop (length seed + k - block_size) (take (length seed + k) out))
               = min (length seed + k) block_size"
    if "k < n" for k
  proof -
    from pass [OF that] obtain sk where
      "generate multinomial k s seed = Inr (take (length seed + k) out, sk)"
      "gen_trace multinomial n s seed ! k
         = (training sk, [drop (length seed + k - block_size) (take (length seed + k) out)])"
      by (elim exE conjE) fast
    moreover have "length (drop (length seed + k - block_size) (take (length seed + k) out))
        = min (length seed + k) block_size"
      using that l by simp
    ultimately show ?thesis by simp
  qed
  show ?thesis
    using r l p pf tl ctx pass by blast
qed

lemma sample_sampler_ok: "sampler_ok sample_sampler"
  by (simp add: sampler_ok_def sample_sampler_def)

lemma sample_seed_ok: "valid_ids [40, 716, 257]"
  by (simp add: valid_ids_def n_vocab_def)

theorem generate_extends_seed_witness:
  "[40, 716, 257 :: int] \<noteq> [] \<and> valid_ids [40, 716, 257] \<and> sampler_ok sample_sampler
   \<and> (\<exists>out s'. generate sample_sampler 200 sample_trainer [40, 716, 257] = Inr (out, s')
         \<and> length out = 203 \<and> take 3 out = [40, 716, 257]
         \<and> length (gen_trace sample_sampler 200 sample_trainer [40, 716, 257]) = 200
         \<and> gen_trace sample_sampler 200 sample_trainer [40, 716, 257] ! 0
             = (True, [[40, 716, 257]])
         \<and> snd (gen_trace sample_sampler 200 sample_trainer [40, 716, 257] ! 100)
             = [drop 71 (take 103 out)]
         \<and> length (drop 71 (take 103 out)) = 32
         \<and> (\<exists>y g1. Transformer_forward sample_net True [[40, 716, 257]] sample_generator
                      = Inr (y, g1)
                  \<and> out ! 3 = int (sample_sampler
                       (softmax (dim2 y) (\<lambda>c. Finite (elem y 0 (dim1 y - 1) c))) (dim2 y) g1)))"
proof -
  have ne: "[40, 716, 257 :: int] \<noteq> []" by simp
  from generate_extends_seed [OF ne sample_seed_ok sample_sampler_ok, of 200 sample_trainer]
  obtain out s' where
    r: "generate sample_sampler 200 sample_trainer [40, 716, 257] = Inr (out, s')"
    and l: "length out = length [40, 716, 257 :: int] + 200"
    and p: "take (length [40, 716, 257 :: int]) out = [40, 716, 257]"
    and tl: "length (gen_trace sample_sampler 200 sample_trainer [40, 716, 257]) = 200"
    and tc: "\<forall>k<200. snd (gen_trace sample_sampler 200 sample_trainer [40, 716, 257] ! k)
               = [drop (length [40, 716, 257 :: int] + k - block_size)
                    (take (length [40, 716, 257 :: int] + k) out)]
            \<and> length (drop (length [40, 716, 257 :: int] + k - block_size)
                    (take (length [40, 716, 257 :: int] + k) out))
               = min (length [40, 716, 257 :: int] + k) block_size"
    and ps: "\<forall>k<200. \<exists>sk y g1.
            generate sample_sampler k sample_trainer [40, 716, 257]
              = Inr (take (length [40, 716, 257 :: int] + k) out, sk)
          \<and> Transformer_forward (model sk) (training sk)
               [drop (length [40, 716, 257 :: int] + k - block_size)
                  (take (length [40, 716, 257 :: int] + k) out)] (rng sk)
              = Inr (y, g1)
          \<and> gen_step sample_sampler sk (take (length [40, 716, 257 :: int] + k) out)
              = ((training sk,
                  [drop (length [40, 716, 257 :: int] + k - block_size)
                     (take (length [40, 716, 257 :: int] + k) out)]),
                 Inr (take (length [40, 716, 257 :: int] + k + 1) out, sk\<lparr>rng := advance 1 g1\<rparr>))
          \<and> gen_trace sample_sampler 200 sample_trainer [40, 716, 257] ! k
              = (training sk,
                 [drop (length [40, 716, 257 :: int] + k - block_size)
                    (take (length [40, 716, 257 :: int] + k) out)])
          \<and> out ! (length [40, 716, 257 :: int] + k)
              = int (sample_sampler (softmax (dim2 y) (\<lambda>c. Finite (elem y 0 (dim1 y - 1) c)))
                       (dim2 y) g1)"
    by blast
  have l': "length out = 203" using l by simp
  have p': "take 3 out = [40, 716, 257]" using p by (simp add: numeral_3_eq_3)
  have "(100::nat) < 200" by simp
  with tc have "snd (gen_trace sample_sampler 200 sample_trainer [40, 716, 257] ! 100)
               = [drop (length [40, 716, 257 :: int] + 100 - block_size)
                    (take (length [40, 716, 257 :: int] + 100) out)]
            \<and> length (drop (length [40, 716, 257 :: int] + 100 - block_size)
                    (take (length [40, 716, 257 :: int] + 100) out))
               = min (length [40, 716, 257 :: int] + 100) block_size"
    by blast
  then have c100: "snd (gen_trace sample_sampler 200 sample_trainer [40, 716, 257] ! 100)
             = [drop 71 (take 103 out)]" "length (drop 71 (take 103 out)) = 32"
    by (simp_all add: block_size_def)
  have "(0::nat) < 200" by simp
  with ps obtain sk y g1 where
    g0: "generate sample_sampler 0 sample_trainer [40, 716, 257]
              = Inr (take (length [40, 716, 257 :: int] + 0) out, sk)"
    and f0: "Transformer_forward (model sk) (training sk)
               [drop (length [40, 716, 257 :: int] + 0 - block_size)
                  (take (length [40, 716, 257 :: int] + 0) out)] (rng sk)
              = Inr (y, g1)"
    and t0: "gen_trace sample_sampler 200 sample_trainer [40, 716, 257] ! 0
              = (training sk,
                 [drop (length [40, 716, 257 :: int] + 0 - block_size)
                    (take (length [40, 716, 257 :: int] + 0) out)])"
    and w0: "out ! (length [40, 716, 257 :: int] + 0)
              = int (sample_sampler (softmax (dim2 y) (\<lambda>c. Finite (elem y 0 (dim1 y - 1) c)))
                       (dim2 y) g1)"
    by blast
  have sk: "sk = sample_trainer" using g0 by simp
  have st: "model sample_trainer = sample_net" "training sample_trainer = True"
    "rng sample_trainer = sample_generator"
    by (simp_all add: sample_trainer_def new_trainer_def)
  have cx: "drop (length [40, 716, 257 :: int] + 0 - block_size)
                  (take (length [40, 716, 257 :: int] + 0) out) = [40, 716, 257]"
    using p by (simp add: block_size_def)
  have f0': "Transformer_forward sample_net True [[40, 716, 257]] sample_generator = Inr (y, g1)"
    using f0 unfolding cx sk st .
  have t0': "gen_trace sample_sampler 200 sample_trainer [40, 716, 257] ! 0
             = (True, [[40, 716, 257]])"
    using t0 unfolding cx sk st .
  have w0': "out ! 3 = int (sample_sampler
                       (softmax (dim2 y) (\<lambda>c. Finite (elem y 0 (dim1 y - 1) c))) (dim2 y) g1)"
    using w0 by (simp add: numeral_3_eq_3)
  from r l' p' tl t0' c100 f0' w0' ne sample_seed_ok sample_sampler_ok show ?thesis by blast
qed

text \<open>
  C4, as stated, fails on the empty seed: the context is empty, the model returns logits
  for no position, and taking the last position raises. One step from the empty seed
  returns no sequence of length 1.
\<close>

theorem generate_empty_seed_counterexample:
  "valid_ids [] \<and> sampler_ok sample_sampler
   \<and> generate sample_sampler 1 sample_trainer [] = Inl IndexError"
  by (simp add: valid_ids_def sample_sampler_ok gen_step_empty)

text \<open>
  C5, evaluated on the code. A new module is in training mode, and every pass through the
  loop body leaves the mode flag on: the validation branch turns it off and on again. So
  after the training cell the flag is on, the generation cell does not touch it, and every
  forward pass of the generation loop runs with the flag on, that is, with dropout active.
\<close>

theorem generation_runs_in_training_mode:
  assumes "train_loop ops train_data val_data (new_trainer m gr ost g) = Inr s1"
  shows "training s1
     \<and> (0 < n \<longrightarrow> gen_trace multinomial n s1 seq \<noteq> [])
     \<and> (\<forall>e \<in> set (gen_trace multinomial n s1 seq). fst e = True)
     \<and> (\<forall>e \<in> set (gen_trace multinomial n (new_trainer m gr ost g) seq). fst e = True)"
proof -
  have t0: "training (new_trainer m gr ost g)" by (simp add: new_trainer_def)
  have t1: "training s1"
    using assms unfolding train_loop_def by (rule train_from_flag [OF t0])
  have ne: "gen_trace multinomial n s1 seq \<noteq> []" if "0 < n"
    using that by (cases n) simp_all
  show ?thesis
    using t0 t1 ne gen_trace_flags [of multinomial n s1 seq]
      gen_trace_flags [of multinomial n "new_trainer m gr ost g" seq]
    by simp
qed

theorem generation_runs_in_training_mode_witness:
  "\<exists>s1. train_loop sample_ops sample_train sample_val sample_trainer = Inr s1
      \<and> training s1
      \<and> map fst (gen_trace sample_sampler 200 s1 [40, 716, 257]) = replicate 200 True"
proof -
  obtain s1 where r: "train_loop sample_ops sample_train sample_val sample_trainer = Inr s1"
    unfolding train_loop_def using train_from_ok [OF sample_data_ok] by blast
  note r' = r [unfolded sample_trainer_def]
  note th = generation_runs_in_training_mode [OF r', of 200 sample_sampler "[40, 716, 257]"]
  have ne: "[40, 716, 257 :: int] \<noteq> []" by simp
  have len: "length (gen_trace sample_sampler 200 s1 [40, 716, 257]) = 200"
    using generate_props [OF sample_sampler_ok ne sample_seed_ok, of 200 s1] by blast
  have "\<forall>b \<in> set (map fst (gen_trace sample_sampler 200 s1 [40, 716, 257])). b = True"
    using th by auto
  then have "replicate (length (map fst (gen_trace sample_sampler 200 s1 [40, 716, 257]))) True
      = map fst (gen_trace sample_sampler 200 s1 [40, 716, 257])"
    by (rule replicate_length_same)
  then have "map fst (gen_trace sample_sampler 200 s1 [40, 716, 257]) = replicate 200 True"
    using len by simp
  with r th show ?thesis by blast
qed

end
